theory Spec2Isabelle
  imports Main "HOL-Library.AList"
begin

text \<open>
  A shallow embedding of the routers of vanilla-router. The repository holds three of
  them: router.ts contains two modules, a basic router (its lines 1 to 292) and the
  Angular variant with guards, resolvers and a regular-expression matcher (the rest of the
  file); router2.ts is the basic router with activation guards and resolvers. The
  functions \<open>_findMatchingRoute\<close> and \<open>_parsePath\<close> of the basic router are, character
  for character, those of router2.ts. Names without a suffix are those of the Angular
  variant of router.ts; names ending in \<open>2\<close> are those of router2.ts.
\<close>

section \<open>Platform: strings, string-keyed objects, percent-decoding\<close>

text \<open>
  JavaScript strings are modelled as \<open>string\<close>, one \<open>char\<close> per code unit, so that the
  strings of the model are those whose code units are below 256. A \<open>Record<string, T>\<close> is
  an object literal; the association list holds its own properties.
\<close>

type_synonym 'v record_of = "(string \<times> 'v) list"
type_synonym params = "string record_of"
type_synonym val = string

datatype error =
    URIError      \<comment> \<open>thrown by \<open>decodeURIComponent\<close> on a malformed escape\<close>
  | Unmodelled    \<comment> \<open>no answer: the input or the result lies outside what is modelled\<close>
  | ResolverRejected string   \<comment> \<open>a resolver's promise rejected (key of the resolver)\<close>
  | ConfigurationError        \<comment> \<open>the \<open>Error\<close> thrown by the constructor of router.ts\<close>

text \<open>
  \<open>obj[k] = v\<close> for a string \<open>v\<close>, on an object literal: the key \<open>__proto__\<close> is the
  accessor inherited from \<open>Object.prototype\<close>, whose setter ignores a value that is not an
  object, so nothing is stored; every other key becomes (or updates) an own property.
\<close>

definition setProp :: "string \<Rightarrow> 'v \<Rightarrow> 'v record_of \<Rightarrow> 'v record_of" where
  "setProp k v obj = (if k = ''__proto__'' then obj else AList.update k v obj)"

text \<open>
  The members an object literal inherits from \<open>Object.prototype\<close>, each with the text its
  value has as a string: \<open>__proto__\<close> reads the prototype itself, the others are native
  functions, whose text is written here as V8 prints it (the standard fixes it up to white
  space). Nothing below depends on the text, except that it is not the placeholder it
  replaces.
\<close>

definition inheritedNames :: "string list" where
  "inheritedNames =
     [''constructor'', ''hasOwnProperty'', ''isPrototypeOf'', ''propertyIsEnumerable'',
      ''toLocaleString'', ''toString'', ''valueOf'', ''__defineGetter__'',
      ''__defineSetter__'', ''__lookupGetter__'', ''__lookupSetter__'', ''__proto__'']"

definition inheritedText :: "string \<Rightarrow> string option" where
  "inheritedText name =
     (if name = ''__proto__'' then Some ''[object Object]''
      else if name = ''constructor'' then Some ''function Object() { [native code] }''
      else if name \<in> set inheritedNames then Some (''function '' @ name @ ''() { [native code] }'')
      else None)"

text \<open>
  \<open>obj[name] || dflt\<close> as a string: an own property when it is a non-empty string, else
  (when there is no own property) the inherited member, which is an object and so is truthy,
  else \<open>dflt\<close>.
\<close>

definition propOr :: "params \<Rightarrow> string \<Rightarrow> string \<Rightarrow> string" where
  "propOr obj name dflt =
     (case map_of obj name of
        Some v \<Rightarrow> if v \<noteq> [] then v else dflt
      | None \<Rightarrow> (case inheritedText name of Some t \<Rightarrow> t | None \<Rightarrow> dflt))"

text \<open>\<open>s.split(c)\<close> for a one-character separator: never the empty array.\<close>

fun js_split :: "char \<Rightarrow> string \<Rightarrow> string list" where
  "js_split c [] = [[]]"
| "js_split c (x # xs) =
     (if x = c then [] # js_split c xs
      else (case js_split c xs of [] \<Rightarrow> [[x]] | y # ys \<Rightarrow> (x # y) # ys))"

text \<open>\<open>xs.join(sep)\<close>.\<close>

fun js_join :: "string \<Rightarrow> string list \<Rightarrow> string" where
  "js_join sep [] = []"
| "js_join sep [x] = x"
| "js_join sep (x # y # ys) = x @ sep @ js_join sep (y # ys)"

text \<open>\<open>p.split('/').filter(Boolean)\<close>: the non-empty segments of a path.\<close>

definition segments :: "string \<Rightarrow> string list" where
  "segments p = filter (\<lambda>s. s \<noteq> []) (js_split CHR ''/'' p)"

definition hexval :: "char \<Rightarrow> nat option" where
  "hexval c =
     (let n = (of_char c :: nat) in
      if 48 \<le> n \<and> n \<le> 57 then Some (n - 48)
      else if 65 \<le> n \<and> n \<le> 70 then Some (n - 55)
      else if 97 \<le> n \<and> n \<le> 102 then Some (n - 87)
      else None)"

text \<open>
  \<open>decodeURIComponent\<close>, after the algorithm Decode of the standard. \<open>readOctets n s\<close>
  reads \<open>n\<close> escapes \<open>%XY\<close> at the head of \<open>s\<close>. The first octet tells how many octets
  follow it (\<open>None\<close>: it cannot begin a character). The octets must be the well-formed
  UTF-8 encoding of a code point: not an overlong form, not a surrogate, not above
  \<open>0x10FFFF\<close>. Every failure throws \<open>URIError\<close>.
\<close>

fun readOctets :: "nat \<Rightarrow> string \<Rightarrow> nat list option" where
  "readOctets 0 s = Some []"
| "readOctets (Suc n) (p # h # l # rest) =
     (if p = CHR ''%'' then
        (case (hexval h, hexval l) of
           (Some a, Some b) \<Rightarrow> map_option (Cons (16 * a + b)) (readOctets n rest)
         | _ \<Rightarrow> None)
      else None)"
| "readOctets (Suc n) s = None"

definition followers :: "nat \<Rightarrow> nat option" where
  "followers b =
     (if b < 0x80 then Some 0
      else if b < 0xC0 then None
      else if b < 0xE0 then Some 1
      else if b < 0xF0 then Some 2
      else if b < 0xF8 then Some 3
      else None)"

definition continuation :: "nat \<Rightarrow> bool" where
  "continuation b = (0x80 \<le> b \<and> b < 0xC0)"

fun codePoint :: "nat list \<Rightarrow> nat option" where
  "codePoint [b1] = (if b1 < 0x80 then Some b1 else None)"
| "codePoint [b1, b2] =
     (if 0xC2 \<le> b1 \<and> b1 < 0xE0 \<and> continuation b2
      then Some ((b1 - 0xC0) * 64 + (b2 - 0x80)) else None)"
| "codePoint [b1, b2, b3] =
     (if 0xE0 \<le> b1 \<and> b1 < 0xF0 \<and> continuation b2 \<and> continuation b3
         \<and> 0x800 \<le> (b1 - 0xE0) * 4096 + (b2 - 0x80) * 64 + (b3 - 0x80)
         \<and> \<not> (0xD800 \<le> (b1 - 0xE0) * 4096 + (b2 - 0x80) * 64 + (b3 - 0x80)
               \<and> (b1 - 0xE0) * 4096 + (b2 - 0x80) * 64 + (b3 - 0x80) \<le> 0xDFFF)
      then Some ((b1 - 0xE0) * 4096 + (b2 - 0x80) * 64 + (b3 - 0x80)) else None)"
| "codePoint [b1, b2, b3, b4] =
     (if 0xF0 \<le> b1 \<and> b1 < 0xF8 \<and> continuation b2 \<and> continuation b3 \<and> continuation b4
         \<and> 0x10000 \<le> (b1 - 0xF0) * 262144 + (b2 - 0x80) * 4096 + (b3 - 0x80) * 64 + (b4 - 0x80)
         \<and> (b1 - 0xF0) * 262144 + (b2 - 0x80) * 4096 + (b3 - 0x80) * 64 + (b4 - 0x80) \<le> 0x10FFFF
      then Some ((b1 - 0xF0) * 262144 + (b2 - 0x80) * 4096 + (b3 - 0x80) * 64 + (b4 - 0x80))
      else None)"
| "codePoint bs = None"

text \<open>
  The decoded character in front of the decoded rest. A code point of 256 or more is a
  character that a string of the model cannot hold: the answer is then \<open>Unmodelled\<close>,
  unless the rest throws. So \<open>Inr\<close> is the string the function returns, \<open>Inl URIError\<close>
  means that it throws, and \<open>Inl Unmodelled\<close> that it returns a string with a code unit
  of 256 or more.
\<close>

definition decoded :: "nat \<Rightarrow> error + string \<Rightarrow> error + string" where
  "decoded cp r =
     (case r of
        Inl e \<Rightarrow> Inl e
      | Inr s \<Rightarrow> if cp < 256 then Inr (char_of cp # s) else Inl Unmodelled)"

function decodeURIComponent :: "string \<Rightarrow> error + string" where
  "decodeURIComponent [] = Inr []"
| "decodeURIComponent (c # cs) =
     (if c = CHR ''%'' then
        (case readOctets 1 (c # cs) of
           None \<Rightarrow> Inl URIError
         | Some [] \<Rightarrow> Inl URIError
         | Some (b # bs) \<Rightarrow>
             (case followers b of
                None \<Rightarrow> Inl URIError
              | Some n \<Rightarrow>
                  (case readOctets (Suc n) (c # cs) of
                     None \<Rightarrow> Inl URIError
                   | Some octets \<Rightarrow>
                       (case codePoint octets of
                          None \<Rightarrow> Inl URIError
                        | Some cp \<Rightarrow>
                            decoded cp (decodeURIComponent (drop (3 * n + 2) cs))))))
      else (case decodeURIComponent cs of Inl e \<Rightarrow> Inl e | Inr r \<Rightarrow> Inr (c # r)))"
  by pat_completeness auto
termination
  by (relation "measure length") simp_all

section \<open>Route configuration\<close>

text \<open>
  The \<open>Route\<close> interface of router.ts (the Angular variant, the second module of that file);
  router2.ts declares the same interface without \<open>canDeactivate\<close>, \<open>canLoad\<close> and
  \<open>errorComponent\<close>, which its code never reads. Guards and resolvers are objects with
  behaviour: a route holds their identities, and an environment (below) gives what each
  returns. A loader \<open>() => Promise<T>\<close> is given by the way its promise settles. An optional
  array or object that is absent is the empty one: the code only maps over it.
\<close>

type_synonym component = string

datatype 'a promise = Resolved 'a | Rejected

text \<open>
  A loaded module, given by what each router reads from it: \<open>ngDoBootstrap\<close> is the
  result of \<open>module.instance.ngDoBootstrap()\<close> (router.ts, a component or nothing),
  \<open>defaultOrModule\<close> is \<open>module.default || module\<close> (router2.ts).
\<close>

datatype ngmodule = NgModuleRef (ngDoBootstrap: "component option") (defaultOrModule: component)

datatype route = Route
  (path: string)
  (loadComponent: "component promise option")
  (loadChildren: "ngmodule promise option")
  (redirectTo: "string option")
  (data: "val record_of")
  (children: "route list")
  (canActivate: "nat list")
  (canDeactivate: "nat list")
  (canLoad: "nat list")
  (resolve: "nat record_of")
  (errorComponent: "component option")

section \<open>The segment matcher of router2.ts (and of the first module of router.ts)\<close>

text \<open>
  The inner loop of \<open>_findMatchingRoute\<close>: \<open>Some params\<close> when \<open>isMatch\<close> stays true. The
  caller has checked that both lists have the same length; a missing path segment is
  \<open>undefined\<close>, which no literal segment equals.
\<close>

fun matchSegments :: "string list \<Rightarrow> string list \<Rightarrow> params \<Rightarrow> params option" where
  "matchSegments [] pathSegments params = Some params"
| "matchSegments (routeSegment # rs) [] params = None"
| "matchSegments (routeSegment # rs) (pathSegment # ps) params =
     (if take 1 routeSegment = '':'' then
        matchSegments rs ps (setProp (drop 1 routeSegment) pathSegment params)
      else if routeSegment \<noteq> pathSegment then None
      else matchSegments rs ps params)"

text \<open>
  \<open>_findMatchingRoute(routes, pathname)\<close> of router2.ts. It assigns \<open>this.currentParams\<close>
  when a route matches by segments, so the field is threaded through: the third argument
  is its value at the call, the second component of the result its value at the return.
\<close>

function findMatchingRoute2 :: "route list \<Rightarrow> string \<Rightarrow> params \<Rightarrow> route option \<times> params" where
  "findMatchingRoute2 [] pathname cur = (None, cur)"
| "findMatchingRoute2 (route # routes) pathname cur =
     (if path route = pathname then (Some route, cur)
      else if path route = ''*'' then (Some route, cur)
      else if length (segments (path route)) \<noteq> length (segments pathname)
        then findMatchingRoute2 routes pathname cur
      else
        (case matchSegments (segments (path route)) (segments pathname) [] of
           None \<Rightarrow> findMatchingRoute2 routes pathname cur
         | Some params \<Rightarrow>
             (case findMatchingRoute2 (children route) pathname params of
                (Some childRoute, cur') \<Rightarrow> (Some childRoute, cur')
              | (None, cur') \<Rightarrow> (Some route, cur'))))"
  by pat_completeness auto
termination
proof (relation "measure (\<lambda>(routes, pathname, cur). size_list size routes)")
  show "wf (measure (\<lambda>(routes :: route list, pathname :: string, cur :: params).
          size_list size routes))"
    by simp
next
  fix route :: route and routes :: "route list" and pathname :: string
    and cur params :: params
  show "((routes, pathname, cur), (route # routes, pathname, cur))
          \<in> measure (\<lambda>(routes, pathname, cur). size_list size routes)"
    by simp
  then show "((routes, pathname, cur), (route # routes, pathname, cur))
          \<in> measure (\<lambda>(routes, pathname, cur). size_list size routes)" .
  have "size_list size (children route) < size route"
    by (cases route) simp
  then show "((children route, pathname, params), (route # routes, pathname, cur))
          \<in> measure (\<lambda>(routes, pathname, cur). size_list size routes)"
    by simp
qed

section \<open>The query parser (\<open>_parsePath\<close>, the same text in both files)\<close>

text \<open>
  The callback of \<open>queryString.split('&').forEach\<close>: \<open>const [key, value] = param.split('=')\<close>
  takes the first two pieces of the split; \<open>value\<close> is \<open>undefined\<close> when there is one piece.
  An exception of \<open>decodeURIComponent\<close> leaves the loop.
\<close>

definition queryParam :: "string \<Rightarrow> params \<Rightarrow> error + params" where
  "queryParam param query =
     (let pieces = js_split CHR ''='' param; key = hd pieces in
      if key \<noteq> [] then
        (case tl pieces of
           [] \<Rightarrow> Inr (setProp key [] query)
         | v # _ \<Rightarrow>
             if v \<noteq> [] then
               (case decodeURIComponent v of
                  Inl e \<Rightarrow> Inl e
                | Inr d \<Rightarrow> Inr (setProp key d query))
             else Inr (setProp key [] query))
      else Inr query)"

fun forEachParam :: "string list \<Rightarrow> params \<Rightarrow> error + params" where
  "forEachParam [] query = Inr query"
| "forEachParam (param # rest) query =
     (case queryParam param query of
        Inl e \<Rightarrow> Inl e
      | Inr query' \<Rightarrow> forEachParam rest query')"

text \<open>
  \<open>const [pathname, queryString] = path.split('?')\<close> and the query loop, which runs when
  \<open>queryString\<close> is a non-empty string.
\<close>

definition pathnameOf :: "string \<Rightarrow> string" where
  "pathnameOf url = hd (js_split CHR ''?'' url)"

definition queryStringOf :: "string \<Rightarrow> string option" where
  "queryStringOf url = (case tl (js_split CHR ''?'' url) of [] \<Rightarrow> None | q # _ \<Rightarrow> Some q)"

definition parseQuery :: "string \<Rightarrow> error + params" where
  "parseQuery url =
     (case queryStringOf url of
        None \<Rightarrow> Inr []
      | Some queryString \<Rightarrow>
          if queryString \<noteq> [] then forEachParam (js_split CHR ''&'' queryString) []
          else Inr [])"

text \<open>
  \<open>_parsePath\<close> of router2.ts: the parameters it returns are \<open>this.currentParams\<close>, here
  the argument \<open>cur\<close>. (The argument \<open>path\<close> of the source is \<open>url\<close> here.)
\<close>

definition parsePath2 :: "params \<Rightarrow> string \<Rightarrow> error + string \<times> params \<times> params" where
  "parsePath2 cur url =
     (case parseQuery url of
        Inl e \<Rightarrow> Inl e
      | Inr query \<Rightarrow> Inr (pathnameOf url, cur, query))"

section \<open>The regular-expression matcher of router.ts\<close>

text \<open>
  \<open>path.replace(/\/:([^/]+)/g, '/([^/]+)')\<close>: scanning from the left, a \<open>/:\<close> followed by
  at least one character other than \<open>/\<close> is replaced, together with the longest run of such
  characters, by the text \<open>/([^/]+)\<close>.
\<close>

function replaceParams :: "string \<Rightarrow> string" where
  "replaceParams [] = []"
| "replaceParams (c # cs) =
     (if c = CHR ''/'' \<and> take 1 cs = '':'' \<and> takeWhile (\<lambda>x. x \<noteq> CHR ''/'') (drop 1 cs) \<noteq> []
      then ''/([^/]+)'' @ replaceParams (dropWhile (\<lambda>x. x \<noteq> CHR ''/'') (drop 1 cs))
      else c # replaceParams cs)"
  by pat_completeness auto
termination
proof (relation "measure length")
  fix c :: char and cs :: string
  have "length (dropWhile (\<lambda>x. x \<noteq> CHR ''/'') (drop 1 cs)) \<le> length (drop 1 cs)"
    by (rule length_dropWhile_le)
  then show "(dropWhile (\<lambda>x. x \<noteq> CHR ''/'') (drop 1 cs), c # cs) \<in> measure length"
    by simp
qed simp_all

text \<open>\<open>.replace(/\*/g, '.*')\<close>.\<close>

fun replaceStars :: "string \<Rightarrow> string" where
  "replaceStars [] = []"
| "replaceStars (c # cs) =
     (if c = CHR ''*'' then ''.*'' @ replaceStars cs else c # replaceStars cs)"

text \<open>\<open>_convertPathToRegex\<close>: the source text given to \<open>new RegExp\<close>.\<close>

definition convertPathToRegex :: "string \<Rightarrow> string" where
  "convertPathToRegex p = ''^'' @ replaceStars (replaceParams p) @ ''$''"

text \<open>
  The fragment of regular expressions that is modelled: between \<open>^\<close> and \<open>$\<close>, a sequence
  of the group \<open>([^/]+)\<close>, of \<open>.*\<close>, of \<open>.\<close> and of characters that have no meaning in a
  pattern. Any other pattern is \<open>Unmodelled\<close>. \<open>.\<close> matches a character that is not a
  line terminator.
\<close>

datatype regex_item = Lit char | Dot | Seg | DotStar

definition syntaxChar :: "char \<Rightarrow> bool" where
  "syntaxChar c = (c \<in> set ''^$.*+?()[]{}|'' \<or> c = CHR 0x5C)"

definition lineTerminator :: "char \<Rightarrow> bool" where
  "lineTerminator c = (c = CHR 0x0A \<or> c = CHR 0x0D)"

fun regexBody :: "string \<Rightarrow> error + regex_item list" where
  "regexBody [] = Inl Unmodelled"
| "regexBody (c # cs) =
     (if c = CHR ''$'' then (if cs = [] then Inr [] else Inl Unmodelled)
      else if take 7 (c # cs) = ''([^/]+)'' then
        (case regexBody (drop 6 cs) of Inl e \<Rightarrow> Inl e | Inr r \<Rightarrow> Inr (Seg # r))
      else if take 2 (c # cs) = ''.*'' then
        (case regexBody (drop 1 cs) of Inl e \<Rightarrow> Inl e | Inr r \<Rightarrow> Inr (DotStar # r))
      else if c = CHR ''.'' then
        (case regexBody cs of Inl e \<Rightarrow> Inl e | Inr r \<Rightarrow> Inr (Dot # r))
      else if syntaxChar c then Inl Unmodelled
      else (case regexBody cs of Inl e \<Rightarrow> Inl e | Inr r \<Rightarrow> Inr (Lit c # r)))"

definition RegExp :: "string \<Rightarrow> error + regex_item list" where
  "RegExp source = (if take 1 source = ''^'' then regexBody (drop 1 source) else Inl Unmodelled)"

text \<open>Whether the anchored pattern matches the whole of a string.\<close>

fun regexMatches :: "regex_item list \<Rightarrow> string \<Rightarrow> bool" where
  "regexMatches [] s = (s = [])"
| "regexMatches (Lit c # r) [] = False"
| "regexMatches (Lit c # r) (x # xs) = (x = c \<and> regexMatches r xs)"
| "regexMatches (Dot # r) [] = False"
| "regexMatches (Dot # r) (x # xs) = (\<not> lineTerminator x \<and> regexMatches r xs)"
| "regexMatches (Seg # r) [] = False"
| "regexMatches (Seg # r) (x # xs) =
     (x \<noteq> CHR ''/'' \<and> (regexMatches (Seg # r) xs \<or> regexMatches r xs))"
| "regexMatches (DotStar # r) [] = regexMatches r []"
| "regexMatches (DotStar # r) (x # xs) =
     ((\<not> lineTerminator x \<and> regexMatches (DotStar # r) xs) \<or> regexMatches r (x # xs))"

text \<open>
  \<open>str.match(regex)\<close> for a pattern anchored at both ends: \<open>match[0]\<close> is the whole
  string when the pattern matches, and the result is \<open>null\<close> otherwise.
\<close>

definition js_match :: "string \<Rightarrow> regex_item list \<Rightarrow> string option" where
  "js_match str regex = (if regexMatches regex str then Some str else None)"

text \<open>The \<open>for\<close> loop of \<open>_findMatchingRoute\<close> of router.ts, with its two variables.\<close>

fun bestMatchLoop :: "route list \<Rightarrow> string \<Rightarrow> route option \<Rightarrow> int \<Rightarrow> error + route option" where
  "bestMatchLoop [] p bestMatch bestMatchLength = Inr bestMatch"
| "bestMatchLoop (route # routes) p bestMatch bestMatchLength =
     (case RegExp (convertPathToRegex (path route)) of
        Inl e \<Rightarrow> Inl e
      | Inr regex \<Rightarrow>
          (case js_match p regex of
             None \<Rightarrow> bestMatchLoop routes p bestMatch bestMatchLength
           | Some m \<Rightarrow>
               if int (length m) > bestMatchLength
               then bestMatchLoop routes p (Some route) (int (length m))
               else bestMatchLoop routes p bestMatch bestMatchLength))"

definition findMatchingRoute :: "route list \<Rightarrow> string \<Rightarrow> error + route option" where
  "findMatchingRoute routes p =
     (case bestMatchLoop routes p None (- 1) of
        Inl e \<Rightarrow> Inl e
      | Inr (Some bestMatch) \<Rightarrow> Inr (Some bestMatch)
      | Inr None \<Rightarrow> Inr (find (\<lambda>r. path r = ''*'') routes))"

text \<open>The \<open>for\<close> loop of \<open>_extractRouteParams\<close>: it stops at the shorter list.\<close>

fun bindSegments :: "string list \<Rightarrow> string list \<Rightarrow> params \<Rightarrow> params" where
  "bindSegments (routeSegment # rs) (pathSegment # ps) params =
     (if take 1 routeSegment = '':'' then
        bindSegments rs ps (setProp (drop 1 routeSegment) pathSegment params)
      else bindSegments rs ps params)"
| "bindSegments rs ps params = params"

text \<open>
  \<open>_extractRouteParams(route, pathname, params)\<close>: the object \<open>params\<close> it fills is the
  result. It descends into the child that matches the remaining path.
\<close>

function extractRouteParams :: "route \<Rightarrow> string \<Rightarrow> params \<Rightarrow> error + params" where
  "extractRouteParams route pathname params =
     (case findMatchingRoute (children route)
             (js_join ''/'' (drop (length (segments (path route))) (segments pathname))) of
        Inl e \<Rightarrow> Inl e
      | Inr None \<Rightarrow> Inr (bindSegments (segments (path route)) (segments pathname) params)
      | Inr (Some childRoute) \<Rightarrow>
          extractRouteParams childRoute
            (js_join ''/'' (drop (length (segments (path route))) (segments pathname)))
            (bindSegments (segments (path route)) (segments pathname) params))"
  by pat_completeness auto
termination
proof (relation "measure (\<lambda>(route, pathname, params). size route)")
  fix route :: route and pathname :: string and params :: params
    and found :: "route option" and childRoute :: route
  let ?rest = "js_join ''/'' (drop (length (segments (path route))) (segments pathname))"
  assume res: "findMatchingRoute (children route) ?rest = Inr found"
    and found: "found = Some childRoute"
  have loop: "bestMatchLoop rs p b l = Inr (Some r) \<Longrightarrow> r \<in> set rs \<or> b = Some r"
    for rs p b l r
  proof (induction rs arbitrary: b l)
    case Nil
    then show ?case by simp
  next
    case (Cons a rs)
    then show ?case
      by (fastforce split: sum.splits option.splits if_splits)
  qed
  have "childRoute \<in> set (children route)"
  proof (cases "bestMatchLoop (children route) ?rest None (- 1)")
    case (Inl e)
    with res show ?thesis by (simp add: findMatchingRoute_def)
  next
    case (Inr b)
    show ?thesis
    proof (cases b)
      case None
      with Inr res found have "find (\<lambda>r. path r = ''*'') (children route) = Some childRoute"
        by (simp add: findMatchingRoute_def)
      then show ?thesis by (auto simp: find_Some_iff)
    next
      case (Some r')
      with Inr res found have "bestMatchLoop (children route) ?rest None (- 1) = Inr (Some childRoute)"
        by (simp add: findMatchingRoute_def)
      from loop [OF this] show ?thesis by simp
    qed
  qed
  then have "size childRoute \<le> size_list size (children route)"
    by (simp add: size_list_estimation')
  moreover have "size_list size (children route) < size route"
    by (cases route) simp
  ultimately show "((childRoute, ?rest,
        bindSegments (segments (path route)) (segments pathname) params),
       (route, pathname, params)) \<in> measure (\<lambda>(route, pathname, params). size route)"
    by simp
qed simp

text \<open>\<open>_parsePath\<close> of router.ts: the parameters come from the matched route.\<close>

definition parsePath :: "route list \<Rightarrow> string \<Rightarrow> error + string \<times> params \<times> params" where
  "parsePath rs url =
     (case parseQuery url of
        Inl e \<Rightarrow> Inl e
      | Inr query \<Rightarrow>
          (case findMatchingRoute rs (pathnameOf url) of
             Inl e \<Rightarrow> Inl e
           | Inr None \<Rightarrow> Inr (pathnameOf url, [], query)
           | Inr (Some route) \<Rightarrow>
               (case extractRouteParams route (pathnameOf url) [] of
                  Inl e \<Rightarrow> Inl e
                | Inr params \<Rightarrow> Inr (pathnameOf url, params, query))))"

text \<open>
  \<open>_handleRedirect\<close>: \<open>/:\w+/g\<close> matches a colon and the longest run of word characters
  after it; the match is replaced by \<open>params[paramName] || match\<close>, a property read that
  also finds the members \<open>params\<close> inherits.
\<close>

definition wordChar :: "char \<Rightarrow> bool" where
  "wordChar c =
     (let n = (of_char c :: nat) in
      (48 \<le> n \<and> n \<le> 57) \<or> (65 \<le> n \<and> n \<le> 90) \<or> n = 95 \<or> (97 \<le> n \<and> n \<le> 122))"

function handleRedirect :: "string \<Rightarrow> params \<Rightarrow> string" where
  "handleRedirect [] params = []"
| "handleRedirect (c # cs) params =
     (if c = CHR '':'' \<and> takeWhile wordChar cs \<noteq> [] then
        propOr params (takeWhile wordChar cs) (CHR '':'' # takeWhile wordChar cs)
        @ handleRedirect (dropWhile wordChar cs) params
      else c # handleRedirect cs params)"
  by pat_completeness auto
termination
proof (relation "measure (\<lambda>(target, params). length target)")
  fix c :: char and cs :: string and params :: params
  have "length (dropWhile wordChar cs) \<le> length cs"
    by (rule length_dropWhile_le)
  then show "((dropWhile wordChar cs, params), (c # cs, params))
      \<in> measure (\<lambda>(target, params). length target)"
    by simp
qed simp_all

section \<open>The router and its collaborators\<close>

datatype activated_route = ActivatedRoute
  (ar_params: params)
  (ar_queryParams: params)
  (ar_path: string)
  (ar_data: "val record_of")

text \<open>
  What guards and resolvers answer. A guard is given by the settled truth value of its
  result, a resolver by the value its promise resolves to, \<open>None\<close> when it rejects.
\<close>

record env =
  canActivate_of :: "nat \<Rightarrow> activated_route \<Rightarrow> bool"
  canLoad_of :: "nat \<Rightarrow> route \<Rightarrow> bool"
  canDeactivate_of :: "nat \<Rightarrow> activated_route \<Rightarrow> bool"
  resolve_of :: "nat \<Rightarrow> activated_route \<Rightarrow> val option"

text \<open>The calls the router makes to guards, resolvers and loaders, in order.\<close>

datatype call =
    CanActivateCall nat activated_route
  | CanLoadCall nat route
  | CanDeactivateCall nat activated_route
  | ResolveCall string nat activated_route
  | LoadChildrenCall
  | LoadComponentCall

text \<open>The detail of a \<open>routechange\<close> event.\<close>

datatype routechange = RouteChange (ev_path: string) (ev_params: params) (ev_query: params)

text \<open>The content of the root element.\<close>

datatype view =
    InnerHTML string
  | Appended component
  | Rendered component activated_route

text \<open>
  The fields of the \<open>Router\<close> object (\<open>rootElement\<close> is \<open>None\<close> for \<open>null\<close>), and what it
  does to the window: the calls to \<open>window.history\<close> (\<open>True\<close> for \<open>replaceState\<close>), the
  events dispatched, and the calls above. router2.ts has no \<open>currentComponentRef\<close> and no
  \<open>currentModuleRef\<close>; its functions leave them as they are.
\<close>

record state =
  routes :: "route list"
  currentParams :: params
  currentPath :: string
  currentQuery :: params
  currentComponentRef :: "component option"
  currentModuleRef :: "ngmodule option"
  rootElement :: "view option"
  history :: "(bool \<times> string) list"
  events :: "routechange list"
  calls :: "call list"

text \<open>
  How one call of \<open>_handleRouting\<close> ends: \<open>Blocked\<close> is the \<open>return\<close> after a rejecting
  guard, \<open>Threw\<close> an exception that leaves the function (its promise rejects),
  \<open>Completed\<close> and \<open>LoadFailed\<close> the two ways through the loading code, \<open>OutOfFuel\<close>
  a chain of redirects longer than the bound given to the model.
\<close>

datatype outcome = NotFound | Blocked | Completed | LoadFailed | Threw error | OutOfFuel

definition dispatchEvent :: "routechange \<Rightarrow> state \<Rightarrow> state" where
  "dispatchEvent ev s = s\<lparr>events := events s @ [ev]\<rparr>"

text \<open>\<open>if (this.rootElement) { this.rootElement.innerHTML = ...; ... }\<close>\<close>

definition setRoot :: "view \<Rightarrow> state \<Rightarrow> state" where
  "setRoot v s = (case rootElement s of None \<Rightarrow> s | Some old \<Rightarrow> s\<lparr>rootElement := Some v\<rparr>)"

text \<open>The object literal passed to every guard and resolver.\<close>

definition activatedOf :: "state \<Rightarrow> route \<Rightarrow> activated_route" where
  "activatedOf s route =
     ActivatedRoute (currentParams s) (currentQuery s) (currentPath s) (data route)"

text \<open>
  The three guard blocks. \<open>Promise.all(xs.map(call))\<close> calls every guard of the list before
  the results are looked at. Each function returns whether navigation goes on.
\<close>

definition checkCanActivate :: "env \<Rightarrow> route \<Rightarrow> state \<Rightarrow> bool \<times> state" where
  "checkCanActivate env route s =
     (\<not> list_ex (\<lambda>g. \<not> canActivate_of env g (activatedOf s route)) (canActivate route),
      s\<lparr>calls := calls s @ map (\<lambda>g. CanActivateCall g (activatedOf s route)) (canActivate route)\<rparr>)"

definition checkCanLoad :: "env \<Rightarrow> route \<Rightarrow> state \<Rightarrow> bool \<times> state" where
  "checkCanLoad env route s =
     (if loadChildren route \<noteq> None \<or> loadComponent route \<noteq> None then
        (\<not> list_ex (\<lambda>g. \<not> canLoad_of env g route) (canLoad route),
         s\<lparr>calls := calls s @ map (\<lambda>g. CanLoadCall g route) (canLoad route)\<rparr>)
      else (True, s))"

definition checkCanDeactivate :: "env \<Rightarrow> route \<Rightarrow> state \<Rightarrow> bool \<times> state" where
  "checkCanDeactivate env route s =
     (if currentComponentRef s \<noteq> None then
        (\<not> list_ex (\<lambda>g. \<not> canDeactivate_of env g (activatedOf s route)) (canDeactivate route),
         s\<lparr>calls := calls s
              @ map (\<lambda>g. CanDeactivateCall g (activatedOf s route)) (canDeactivate route)\<rparr>)
      else (True, s))"

text \<open>
  The resolver block: every resolver is called; \<open>await Promise.all\<close> throws when one of
  the promises rejected, and \<open>resolvedData\<close> holds the values otherwise.
\<close>

fun settleAll :: "(string \<times> val option) list \<Rightarrow> val record_of \<Rightarrow> error + val record_of" where
  "settleAll [] resolvedData = Inr resolvedData"
| "settleAll ((key, None) # rest) resolvedData = Inl (ResolverRejected key)"
| "settleAll ((key, Some v) # rest) resolvedData = settleAll rest (setProp key v resolvedData)"

definition resolveData :: "env \<Rightarrow> route \<Rightarrow> state \<Rightarrow> (error + val record_of) \<times> state" where
  "resolveData env route s =
     (settleAll (map (\<lambda>(key, r). (key, resolve_of env r (activatedOf s route))) (resolve route)) [],
      s\<lparr>calls := calls s
           @ map (\<lambda>(key, r). ResolveCall key r (activatedOf s route)) (resolve route)\<rparr>)"

text \<open>\<open>{ ...route.data, ...resolvedData }\<close>\<close>

definition spread :: "val record_of \<Rightarrow> val record_of \<Rightarrow> val record_of" where
  "spread base extra = fold (\<lambda>(k, v). AList.update k v) extra base"

text \<open>\<open>if (route.redirectTo)\<close>: the empty string is not a target.\<close>

definition redirectTarget :: "route \<Rightarrow> string option" where
  "redirectTarget route =
     (case redirectTo route of None \<Rightarrow> None | Some t \<Rightarrow> if t \<noteq> [] then Some t else None)"

subsection \<open>router.ts\<close>

text \<open>
  \<open>_renderAngularComponent\<close>: the earlier component and module are destroyed, the new
  component becomes \<open>currentComponentRef\<close> and its element the content of the root
  element. What a component instance holds (its \<open>routeData\<close>) is not modelled.
\<close>

definition renderAngularComponent :: "component \<Rightarrow> activated_route \<Rightarrow> state \<Rightarrow> state" where
  "renderAngularComponent component activatedRoute s =
     setRoot (Appended component)
       (s\<lparr>currentModuleRef := None, currentComponentRef := Some component\<rparr>)"

text \<open>The \<open>catch\<close> block.\<close>

definition loadError :: "route \<Rightarrow> activated_route \<Rightarrow> state \<Rightarrow> state" where
  "loadError route activatedRoute s =
     (case errorComponent route of
        Some c \<Rightarrow> renderAngularComponent c activatedRoute s
      | None \<Rightarrow> setRoot (InnerHTML ''<h1>Failed to load component/module</h1>'') s)"

text \<open>The \<open>try\<close> statement; the first component of the result tells whether it caught.\<close>

definition loadAndRender :: "route \<Rightarrow> activated_route \<Rightarrow> state \<Rightarrow> bool \<times> state" where
  "loadAndRender route activatedRoute s =
     (case loadChildren route of
        Some p \<Rightarrow>
          (case p of
             Rejected \<Rightarrow> (True, loadError route activatedRoute (s\<lparr>calls := calls s @ [LoadChildrenCall]\<rparr>))
           | Resolved m \<Rightarrow>
               (case ngDoBootstrap m of
                  Some component \<Rightarrow>
                    (False, renderAngularComponent component activatedRoute
                       (s\<lparr>calls := calls s @ [LoadChildrenCall], currentModuleRef := Some m\<rparr>))
                | None \<Rightarrow>
                    (False, s\<lparr>calls := calls s @ [LoadChildrenCall], currentModuleRef := Some m\<rparr>)))
      | None \<Rightarrow>
          (case loadComponent route of
             Some p \<Rightarrow>
               (case p of
                  Rejected \<Rightarrow>
                    (True, loadError route activatedRoute (s\<lparr>calls := calls s @ [LoadComponentCall]\<rparr>))
                | Resolved component \<Rightarrow>
                    (False, renderAngularComponent component activatedRoute
                       (s\<lparr>calls := calls s @ [LoadComponentCall]\<rparr>)))
           | None \<Rightarrow> (False, s)))"

text \<open>
  \<open>_handleRouting\<close> and \<open>navigate\<close> of router.ts, for one chain of navigations with
  nothing else running in between. The first argument bounds the number of calls of
  \<open>_handleRouting\<close> in the chain (a redirect calls \<open>navigate\<close>, which calls it again).
\<close>

fun handleRouting :: "nat \<Rightarrow> env \<Rightarrow> state \<Rightarrow> string \<Rightarrow> outcome \<times> state"
  and navigate :: "nat \<Rightarrow> env \<Rightarrow> state \<Rightarrow> string \<Rightarrow> bool \<Rightarrow> outcome \<times> state" where
  "navigate n env s url replace =
     handleRouting n env (s\<lparr>history := history s @ [(replace, url)]\<rparr>) url"
| "handleRouting 0 env s url = (OutOfFuel, s)"
| "handleRouting (Suc n) env s url =
     (case parsePath (routes s) url of
        Inl e \<Rightarrow> (Threw e, s)
      | Inr (pathname, params, query) \<Rightarrow>
          (case findMatchingRoute (routes s) pathname of
             Inl e \<Rightarrow>
               (Threw e, s\<lparr>currentParams := params, currentPath := pathname, currentQuery := query\<rparr>)
           | Inr None \<Rightarrow>
               (NotFound,
                dispatchEvent (RouteChange url params query)
                  (setRoot (InnerHTML ''<h1>404 - Page Not Found</h1>'')
                     (s\<lparr>currentParams := params, currentPath := pathname, currentQuery := query\<rparr>)))
           | Inr (Some route) \<Rightarrow>
               (case checkCanActivate env route
                       (s\<lparr>currentParams := params, currentPath := pathname, currentQuery := query\<rparr>) of
                  (False, s1) \<Rightarrow> (Blocked, s1)
                | (True, s1) \<Rightarrow>
               (case checkCanLoad env route s1 of
                  (False, s2) \<Rightarrow> (Blocked, s2)
                | (True, s2) \<Rightarrow>
               (case checkCanDeactivate env route s2 of
                  (False, s3) \<Rightarrow> (Blocked, s3)
                | (True, s3) \<Rightarrow>
               (case resolveData env route s3 of
                  (Inl e, s4) \<Rightarrow> (Threw e, s4)
                | (Inr resolvedData, s4) \<Rightarrow>
               (case redirectTarget route of
                  Some target \<Rightarrow> navigate n env s4 (handleRedirect target params) True
                | None \<Rightarrow>
               (case loadAndRender route
                       (ActivatedRoute (currentParams s4) (currentQuery s4) (currentPath s4)
                          (spread (data route) resolvedData)) s4 of
                  (failed, s5) \<Rightarrow>
                    (if failed then LoadFailed else Completed,
                     dispatchEvent (RouteChange url params query) s5)))))))))"

text \<open>
  The constructor of router.ts. \<open>location\<close> is
  \<open>window.location.pathname + window.location.search\<close>, read by \<open>_navigateToCurrentUrl\<close>.
\<close>

fun findIndex :: "('a \<Rightarrow> bool) \<Rightarrow> 'a list \<Rightarrow> int" where
  "findIndex P [] = - 1"
| "findIndex P (x # xs) =
     (if P x then 0 else (let i = findIndex P xs in if i < 0 then - 1 else i + 1))"

definition initial :: "route list \<Rightarrow> view option \<Rightarrow> state" where
  "initial rs root =
     \<lparr>routes = rs, currentParams = [], currentPath = [], currentQuery = [],
      currentComponentRef = None, currentModuleRef = None, rootElement = root,
      history = [], events = [], calls = []\<rparr>"

definition Router :: "nat \<Rightarrow> env \<Rightarrow> route list \<Rightarrow> view option \<Rightarrow> string \<Rightarrow> error + outcome \<times> state" where
  "Router n env rs root location =
     (if findIndex (\<lambda>r. path r = ''*'') rs \<ge> 0
         \<and> findIndex (\<lambda>r. path r = ''*'') rs \<noteq> int (length rs) - 1
      then Inl ConfigurationError
      else Inr (handleRouting n env (initial rs root) location))"

subsection \<open>router2.ts\<close>

text \<open>The two \<open>try\<close> statements of router2.ts.\<close>

definition loadAndMount2 :: "route \<Rightarrow> activated_route \<Rightarrow> state \<Rightarrow> bool \<times> state" where
  "loadAndMount2 route activatedRoute s =
     (case loadChildren route of
        Some p \<Rightarrow>
          (case p of
             Rejected \<Rightarrow>
               (True, setRoot (InnerHTML ''<h1>Module failed to load</h1>'')
                        (s\<lparr>calls := calls s @ [LoadChildrenCall]\<rparr>))
           | Resolved m \<Rightarrow>
               (False, setRoot (Rendered (defaultOrModule m) activatedRoute)
                         (s\<lparr>calls := calls s @ [LoadChildrenCall]\<rparr>)))
      | None \<Rightarrow>
          (case loadComponent route of
             Some p \<Rightarrow>
               (case p of
                  Rejected \<Rightarrow>
                    (True, setRoot (InnerHTML ''<h1>Component failed to load</h1>'')
                             (s\<lparr>calls := calls s @ [LoadComponentCall]\<rparr>))
                | Resolved component \<Rightarrow>
                    (False, setRoot (Rendered component activatedRoute)
                              (s\<lparr>calls := calls s @ [LoadComponentCall]\<rparr>)))
           | None \<Rightarrow> (False, s)))"

text \<open>
  \<open>_handleRouting\<close> and \<open>navigate\<close> of router2.ts. \<open>_parsePath\<close> returns the parameters
  the router held before; \<open>_findMatchingRoute\<close> then assigns \<open>this.currentParams\<close>.
\<close>

fun handleRouting2 :: "nat \<Rightarrow> env \<Rightarrow> state \<Rightarrow> string \<Rightarrow> outcome \<times> state"
  and navigate2 :: "nat \<Rightarrow> env \<Rightarrow> state \<Rightarrow> string \<Rightarrow> bool \<Rightarrow> outcome \<times> state" where
  "navigate2 n env s url replace =
     handleRouting2 n env (s\<lparr>history := history s @ [(replace, url)]\<rparr>) url"
| "handleRouting2 0 env s url = (OutOfFuel, s)"
| "handleRouting2 (Suc n) env s url =
     (case parsePath2 (currentParams s) url of
        Inl e \<Rightarrow> (Threw e, s)
      | Inr (pathname, params, query) \<Rightarrow>
          (case findMatchingRoute2 (routes s) pathname params of
             (None, cur) \<Rightarrow>
               (NotFound,
                dispatchEvent (RouteChange url params query)
                  (setRoot (InnerHTML ''<h1>404 - Page Not Found</h1>'')
                     (s\<lparr>currentParams := cur, currentPath := pathname, currentQuery := query\<rparr>)))
           | (Some route, cur) \<Rightarrow>
               (case checkCanActivate env route
                       (s\<lparr>currentParams := cur, currentPath := pathname, currentQuery := query\<rparr>) of
                  (False, s1) \<Rightarrow> (Blocked, s1)
                | (True, s1) \<Rightarrow>
               (case resolveData env route s1 of
                  (Inl e, s2) \<Rightarrow> (Threw e, s2)
                | (Inr resolvedData, s2) \<Rightarrow>
               (case redirectTarget route of
                  Some target \<Rightarrow> navigate2 n env s2 target True
                | None \<Rightarrow>
               (case loadAndMount2 route
                       (ActivatedRoute (currentParams s2) (currentQuery s2) (currentPath s2)
                          (spread (data route) resolvedData)) s2 of
                  (failed, s3) \<Rightarrow>
                    (if failed then LoadFailed else Completed,
                     dispatchEvent (RouteChange url params query) s3)))))))"

text \<open>The constructor of router2.ts: it checks nothing.\<close>

definition Router2 :: "nat \<Rightarrow> env \<Rightarrow> route list \<Rightarrow> view option \<Rightarrow> string \<Rightarrow> error + outcome \<times> state" where
  "Router2 n env rs root location = Inr (handleRouting2 n env (initial rs root) location)"

section \<open>Reference definitions\<close>

subsection \<open>Query strings\<close>

text \<open>
  The key of a token is the text before its first \<open>=\<close>; its raw value is the text
  between the first and the second \<open>=\<close> (empty when there is no \<open>=\<close>); its value is
  the raw value percent-decoded, the empty string when the raw value is empty.
\<close>

definition keyOf :: "string \<Rightarrow> string" where
  "keyOf token = takeWhile (\<lambda>x. x \<noteq> CHR ''='') token"

definition rawValueOf :: "string \<Rightarrow> string" where
  "rawValueOf token =
     takeWhile (\<lambda>x. x \<noteq> CHR ''='') (drop 1 (dropWhile (\<lambda>x. x \<noteq> CHR ''='') token))"

definition valueOf :: "string \<Rightarrow> error + string" where
  "valueOf token =
     (if rawValueOf token = [] then Inr [] else decodeURIComponent (rawValueOf token))"

text \<open>
  The tokens of a URL: the text between its first and its second \<open>?\<close>, split on \<open>&\<close>,
  without the tokens that have no key.
\<close>

definition queryTokens :: "string \<Rightarrow> string list" where
  "queryTokens url =
     (let queryString =
        takeWhile (\<lambda>x. x \<noteq> CHR ''?'') (drop 1 (dropWhile (\<lambda>x. x \<noteq> CHR ''?'') url))
      in if queryString = [] then []
         else filter (\<lambda>t. keyOf t \<noteq> []) (js_split CHR ''&'' queryString))"

text \<open>
  The value of the last token with key \<open>k\<close>; the key \<open>__proto__\<close> never has one. It is
  read when every token has a value.
\<close>

definition lastValue :: "string list \<Rightarrow> string \<Rightarrow> string option" where
  "lastValue tokens k =
     (if k = ''__proto__'' then None
      else (case find (\<lambda>t. keyOf t = k) (rev tokens) of
              None \<Rightarrow> None
            | Some t \<Rightarrow> (case valueOf t of Inl e \<Rightarrow> None | Inr v \<Rightarrow> Some v)))"

text \<open>The failure of the first token whose value does not decode.\<close>

definition firstError :: "string list \<Rightarrow> error option" where
  "firstError tokens =
     (case find (\<lambda>t. isl (valueOf t)) tokens of
        None \<Rightarrow> None
      | Some t \<Rightarrow> (case valueOf t of Inl e \<Rightarrow> Some e | Inr v \<Rightarrow> None))"

text \<open>The text after the first occurrence of a character.\<close>

definition afterFirst :: "char \<Rightarrow> string \<Rightarrow> string" where
  "afterFirst c s = drop 1 (dropWhile (\<lambda>x. x \<noteq> c) s)"

subsection \<open>Route trees and matching predicates\<close>

text \<open>A route and all its descendants; the routes of a list of trees.\<close>

fun allRoutes :: "route \<Rightarrow> route list" where
  "allRoutes (Route p lc lch rd d cs ca cd cl rs ec) =
     Route p lc lch rd d cs ca cd cl rs ec # concat (map allRoutes cs)"

definition treeRoutes :: "route list \<Rightarrow> route list" where
  "treeRoutes rs = concat (map allRoutes rs)"

text \<open>A route whose pattern, as router.ts compiles it, matches the pathname.\<close>

definition routeMatches :: "string \<Rightarrow> route \<Rightarrow> bool" where
  "routeMatches p r =
     (case RegExp (convertPathToRegex (path r)) of
        Inl e \<Rightarrow> False
      | Inr regex \<Rightarrow> regexMatches regex p)"

text \<open>
  A route at which the loop of router2.ts stops: equal to the pathname, the wildcard, or
  matching segment by segment.
\<close>

definition routeMatches2 :: "string \<Rightarrow> route \<Rightarrow> bool" where
  "routeMatches2 p r =
     (path r = p \<or> path r = ''*''
      \<or> (length (segments (path r)) = length (segments p)
          \<and> matchSegments (segments (path r)) (segments p) [] \<noteq> None))"

text \<open>
  The paths of all routes of the trees lie in the fragment of regular expressions that is
  modelled: plain characters, \<open>.\<close>, \<open>:name\<close> segments and \<open>*\<close>.
\<close>

definition inFragment :: "route list \<Rightarrow> bool" where
  "inFragment rs =
     list_all (\<lambda>r. \<not> isl (RegExp (convertPathToRegex (path r)))) (treeRoutes rs)"

subsection \<open>Example configurations\<close>

text \<open>A route with a path and nothing else.\<close>

definition plainRoute :: "string \<Rightarrow> route" where
  "plainRoute p = Route p None None None [] [] [] [] [] [] None"

subsection \<open>One attempt of navigation\<close>

text \<open>The router after the three assignments that open \<open>_handleRouting\<close>.\<close>

definition attempted :: "state \<Rightarrow> string \<Rightarrow> params \<Rightarrow> params \<Rightarrow> state" where
  "attempted s pathname params query =
     s\<lparr>currentParams := params, currentPath := pathname, currentQuery := query\<rparr>"

text \<open>
  The router after \<open>navigate\<close> has called \<open>history.pushState\<close> or
  \<open>history.replaceState\<close>, which it does before it calls \<open>_handleRouting\<close>.
\<close>

definition pushed :: "state \<Rightarrow> string \<Rightarrow> bool \<Rightarrow> state" where
  "pushed s url replace = s\<lparr>history := history s @ [(replace, url)]\<rparr>"

text \<open>The candidate: the attempted location with the data of the matched route.\<close>

definition candidate :: "string \<Rightarrow> params \<Rightarrow> params \<Rightarrow> route \<Rightarrow> activated_route" where
  "candidate pathname params query route = ActivatedRoute params query pathname (data route)"

definition hasLoader :: "route \<Rightarrow> bool" where
  "hasLoader route = (loadChildren route \<noteq> None \<or> loadComponent route \<noteq> None)"

text \<open>The loader that \<open>_handleRouting\<close> would call rejects.\<close>

definition loaderFails :: "route \<Rightarrow> bool" where
  "loaderFails route =
     (loadChildren route = Some Rejected
      \<or> (loadChildren route = None \<and> loadComponent route = Some Rejected))"

text \<open>The calls of each block of the pipeline, for an activated route \<open>a\<close>.\<close>

definition activateCalls :: "activated_route \<Rightarrow> route \<Rightarrow> call list" where
  "activateCalls a route = map (\<lambda>g. CanActivateCall g a) (canActivate route)"

definition loadCalls :: "route \<Rightarrow> call list" where
  "loadCalls route = (if hasLoader route then map (\<lambda>g. CanLoadCall g route) (canLoad route) else [])"

definition deactivateCalls :: "state \<Rightarrow> activated_route \<Rightarrow> route \<Rightarrow> call list" where
  "deactivateCalls s a route =
     (if currentComponentRef s \<noteq> None
      then map (\<lambda>g. CanDeactivateCall g a) (canDeactivate route) else [])"

definition resolveCalls :: "activated_route \<Rightarrow> route \<Rightarrow> call list" where
  "resolveCalls a route = map (\<lambda>(key, r). ResolveCall key r a) (resolve route)"

text \<open>No guard of a block rejects; no resolver rejects.\<close>

definition activatePass :: "env \<Rightarrow> activated_route \<Rightarrow> route \<Rightarrow> bool" where
  "activatePass env a route = list_all (\<lambda>g. canActivate_of env g a) (canActivate route)"

definition loadPass :: "env \<Rightarrow> route \<Rightarrow> bool" where
  "loadPass env route =
     (\<not> hasLoader route \<or> list_all (\<lambda>g. canLoad_of env g route) (canLoad route))"

definition deactivatePass :: "env \<Rightarrow> state \<Rightarrow> activated_route \<Rightarrow> route \<Rightarrow> bool" where
  "deactivatePass env s a route =
     (currentComponentRef s = None
      \<or> list_all (\<lambda>g. canDeactivate_of env g a) (canDeactivate route))"

definition resolvePass :: "env \<Rightarrow> activated_route \<Rightarrow> route \<Rightarrow> bool" where
  "resolvePass env a route = list_all (\<lambda>(key, r). resolve_of env r a \<noteq> None) (resolve route)"

text \<open>The values of the resolvers, in the order of their keys.\<close>

definition resolved :: "env \<Rightarrow> activated_route \<Rightarrow> route \<Rightarrow> error + val record_of" where
  "resolved env a route =
     settleAll (map (\<lambda>(key, r). (key, resolve_of env r a)) (resolve route)) []"

text \<open>
  What \<open>_handleRouting\<close> of router.ts does after the guard blocks, from the state \<open>s3\<close>
  they leave: the resolvers, then the redirect or the loading and the event.
\<close>

definition afterGuards ::
  "nat \<Rightarrow> env \<Rightarrow> state \<Rightarrow> string \<Rightarrow> string \<Rightarrow> params \<Rightarrow> params \<Rightarrow> route \<Rightarrow> outcome \<times> state" where
  "afterGuards n env s3 url pathname params query route =
     (case resolved env (candidate pathname params query route) route of
        Inl e \<Rightarrow>
          (Threw e,
           s3\<lparr>calls := calls s3 @ resolveCalls (candidate pathname params query route) route\<rparr>)
      | Inr resolvedData \<Rightarrow>
          (case redirectTarget route of
             Some target \<Rightarrow>
               navigate n env
                 (s3\<lparr>calls := calls s3 @ resolveCalls (candidate pathname params query route) route\<rparr>)
                 (handleRedirect target params) True
           | None \<Rightarrow>
               (case loadAndRender route
                       (ActivatedRoute params query pathname (spread (data route) resolvedData))
                       (s3\<lparr>calls := calls s3
                              @ resolveCalls (candidate pathname params query route) route\<rparr>) of
                  (failed, s5) \<Rightarrow>
                    (if failed then LoadFailed else Completed,
                     dispatchEvent (RouteChange url params query) s5))))"

text \<open>
  The same for router2.ts, after its activation guards: \<open>cur\<close> are the parameters the
  matcher assigned, \<open>params\<close> the ones \<open>_parsePath\<close> returned.
\<close>

definition afterGuards2 ::
  "nat \<Rightarrow> env \<Rightarrow> state \<Rightarrow> string \<Rightarrow> string \<Rightarrow> params \<Rightarrow> params \<Rightarrow> params \<Rightarrow> route
     \<Rightarrow> outcome \<times> state" where
  "afterGuards2 n env s1 url pathname params cur query route =
     (case resolved env (candidate pathname cur query route) route of
        Inl e \<Rightarrow>
          (Threw e,
           s1\<lparr>calls := calls s1 @ resolveCalls (candidate pathname cur query route) route\<rparr>)
      | Inr resolvedData \<Rightarrow>
          (case redirectTarget route of
             Some target \<Rightarrow>
               navigate2 n env
                 (s1\<lparr>calls := calls s1 @ resolveCalls (candidate pathname cur query route) route\<rparr>)
                 target True
           | None \<Rightarrow>
               (case loadAndMount2 route
                       (ActivatedRoute cur query pathname (spread (data route) resolvedData))
                       (s1\<lparr>calls := calls s1
                              @ resolveCalls (candidate pathname cur query route) route\<rparr>) of
                  (failed, s3) \<Rightarrow>
                    (if failed then LoadFailed else Completed,
                     dispatchEvent (RouteChange url params query) s3))))"

text \<open>Environments: every guard accepts; the guard or resolver \<open>k\<close> rejects.\<close>

definition allowAll :: env where
  "allowAll =
     \<lparr>canActivate_of = (\<lambda>g a. True), canLoad_of = (\<lambda>g r. True),
      canDeactivate_of = (\<lambda>g a. True), resolve_of = (\<lambda>r a. Some ''v'')\<rparr>"

definition rejecting :: "nat \<Rightarrow> env" where
  "rejecting k =
     \<lparr>canActivate_of = (\<lambda>g a. g \<noteq> k), canLoad_of = (\<lambda>g r. g \<noteq> k),
      canDeactivate_of = (\<lambda>g a. g \<noteq> k),
      resolve_of = (\<lambda>r a. if r = k then None else Some ''v'')\<rparr>"

subsection \<open>Redirect targets\<close>

text \<open>
  A redirect target read as a sequence of pieces: a placeholder is a colon followed by the
  longest non-empty run of word characters, anything else is text. A placeholder is
  replaced by the parameter of its name when there is one (and it is not empty), and is
  left as it stands otherwise.
\<close>

datatype piece = Text char | Placeholder string

function pieces :: "string \<Rightarrow> piece list" where
  "pieces [] = []"
| "pieces (c # cs) =
     (if c = CHR '':'' \<and> takeWhile wordChar cs \<noteq> []
      then Placeholder (takeWhile wordChar cs) # pieces (dropWhile wordChar cs)
      else Text c # pieces cs)"
  by pat_completeness auto
termination
proof (relation "measure length")
  fix c :: char and cs :: string
  have "length (dropWhile wordChar cs) \<le> length cs"
    by (rule length_dropWhile_le)
  then show "(dropWhile wordChar cs, c # cs) \<in> measure length"
    by simp
qed simp_all





subsection \<open>An example application\<close>

definition routeA :: route where
  "routeA = Route ''/a'' (Some (Resolved ''A'')) None None [] [] [] [] [] [] None"

definition routeB :: route where
  "routeB = Route ''/b'' (Some (Resolved ''B'')) None None [] [] [1] [] [] [] None"

definition routeC :: route where
  "routeC = Route ''/c'' (Some Rejected) None None [] [] [] [] [] [] None"

definition routeD :: route where
  "routeD = Route ''/d'' (Some (Resolved ''D'')) None None [] [] [] [] [] [(''user'', 5)] None"

definition routeE :: route where
  "routeE = Route ''/e'' (Some (Resolved ''E'')) None None [] [] [2] [] [3] [] None"

definition routeF :: route where
  "routeF = Route ''/f'' (Some (Resolved ''F'')) None None [] [] [] [4] [] [] None"

definition routeOld :: route where
  "routeOld = Route ''/old/:id'' None None (Some ''/new/:id'') [] [] [6] [] [] [] None"

definition routeNew :: route where
  "routeNew = Route ''/new/:id'' (Some (Resolved ''N'')) None None [] [] [] [] [] [] None"

definition exampleRoutes :: "route list" where
  "exampleRoutes = [routeA, routeB, routeC, routeD, routeE, routeF, routeOld, routeNew]"

text \<open>The routers after their construction at \<open>/a\<close>, where every guard accepts.\<close>

definition visitedA :: state where
  "visitedA = snd (handleRouting 1 allowAll (initial exampleRoutes (Some (InnerHTML []))) ''/a'')"

definition visitedA2 :: state where
  "visitedA2 = snd (handleRouting2 1 allowAll (initial exampleRoutes (Some (InnerHTML []))) ''/a'')"

text \<open>The router of router2.ts after a further navigation to \<open>/new/5\<close>.\<close>

definition visitedNew2 :: state where
  "visitedNew2 = snd (navigate2 1 allowAll visitedA2 ''/new/5'' False)"

section \<open>Properties\<close>

subsection \<open>Splitting\<close>

lemma js_split_nonempty: "js_split c s \<noteq> []"
  by (induction s) (auto split: list.splits)

lemma hd_js_split: "hd (js_split c s) = takeWhile (\<lambda>x. x \<noteq> c) s"
  by (induction s) (auto split: list.splits simp: js_split_nonempty)

lemma tl_js_split:
  "tl (js_split c s) = (case dropWhile (\<lambda>x. x \<noteq> c) s of [] \<Rightarrow> [] | d # rest \<Rightarrow> js_split c rest)"
proof (induction s)
  case Nil
  then show ?case by simp
next
  case (Cons a s)
  show ?case
  proof (cases "a = c")
    case True
    then show ?thesis by simp
  next
    case False
    obtain y ys where y: "js_split c s = y # ys"
      using js_split_nonempty [of c s] by (cases "js_split c s") auto
    with Cons have "ys = (case dropWhile (\<lambda>x. x \<noteq> c) s of [] \<Rightarrow> [] | d # rest \<Rightarrow> js_split c rest)"
      by simp
    with False y show ?thesis by simp
  qed
qed

lemma second_js_split:
  "(case tl (js_split c s) of [] \<Rightarrow> [] | v # rest \<Rightarrow> v)
     = takeWhile (\<lambda>x. x \<noteq> c) (drop 1 (dropWhile (\<lambda>x. x \<noteq> c) s))"
proof (cases "dropWhile (\<lambda>x. x \<noteq> c) s")
  case Nil
  show ?thesis unfolding tl_js_split Nil by simp
next
  case (Cons d rest)
  obtain y ys where y: "js_split c rest = y # ys"
    using js_split_nonempty [of c rest] by (cases "js_split c rest") auto
  have "hd (js_split c rest) = takeWhile (\<lambda>x. x \<noteq> c) rest"
    by (rule hd_js_split)
  with y show ?thesis unfolding tl_js_split Cons by simp
qed

lemma queryParam_spec:
  "queryParam param query =
     (if keyOf param = [] then Inr query
      else (case valueOf param of Inl e \<Rightarrow> Inl e
            | Inr v \<Rightarrow> Inr (setProp (keyOf param) v query)))"
proof -
  have k: "hd (js_split CHR ''='' param) = keyOf param"
    by (simp add: hd_js_split keyOf_def)
  have v: "(case tl (js_split CHR ''='' param) of [] \<Rightarrow> [] | v # rest \<Rightarrow> v) = rawValueOf param"
    by (simp add: second_js_split rawValueOf_def)
  show ?thesis
  proof (cases "tl (js_split CHR ''='' param)")
    case Nil
    with v have "rawValueOf param = []" by simp
    with Nil k show ?thesis by (simp add: queryParam_def valueOf_def)
  next
    case (Cons x xs)
    with v have "rawValueOf param = x" by simp
    with Cons k show ?thesis by (simp add: queryParam_def valueOf_def)
  qed
qed


lemma find_append:
  "find P (xs @ ys) = (case find P xs of None \<Rightarrow> find P ys | Some x \<Rightarrow> Some x)"
  by (induction xs) auto

lemma find_SomeD: "find P xs = Some x \<Longrightarrow> x \<in> set xs \<and> P x"
  by (induction xs) (auto split: if_splits)

lemma map_of_setProp:
  "map_of (setProp key v q) k =
     (if key = ''__proto__'' then map_of q k else if k = key then Some v else map_of q k)"
  by (simp add: setProp_def update_conv')

lemma firstError_Cons:
  "firstError (t # ts) = (case valueOf t of Inl e \<Rightarrow> Some e | Inr v \<Rightarrow> firstError ts)"
  by (cases "valueOf t") (simp_all add: firstError_def)

lemma firstError_None:
  "firstError ts = None \<Longrightarrow> t \<in> set ts \<Longrightarrow> \<exists>v. valueOf t = Inr v"
proof (induction ts)
  case Nil
  then show ?case by simp
next
  case (Cons a ts)
  then show ?case
    by (cases "valueOf a") (auto simp: firstError_Cons)
qed

lemma forEachParam_ok:
  assumes "firstError (filter (\<lambda>t. keyOf t \<noteq> []) tokens) = None"
  shows "\<exists>q'. forEachParam tokens q = Inr q'
           \<and> (\<forall>k. map_of q' k =
                 (if k = ''__proto__'' then map_of q k
                  else (case lastValue (filter (\<lambda>t. keyOf t \<noteq> []) tokens) k of
                          None \<Rightarrow> map_of q k | Some v \<Rightarrow> Some v)))"
  using assms
proof (induction tokens arbitrary: q)
  case Nil
  then show ?case by (simp add: lastValue_def)
next
  case (Cons tok rest)
  show ?case
  proof (cases "keyOf tok = []")
    case True
    with Cons.prems have "firstError (filter (\<lambda>t. keyOf t \<noteq> []) rest) = None" by simp
    moreover have "forEachParam (tok # rest) q = forEachParam rest q"
      using True by (simp add: queryParam_spec)
    moreover have "filter (\<lambda>t. keyOf t \<noteq> []) (tok # rest) = filter (\<lambda>t. keyOf t \<noteq> []) rest"
      using True by simp
    ultimately show ?thesis using Cons.IH [of q] by metis
  next
    case False
    with Cons.prems obtain v where v: "valueOf tok = Inr v"
      and rest: "firstError (filter (\<lambda>t. keyOf t \<noteq> []) rest) = None"
      by (cases "valueOf tok") (auto simp: firstError_Cons)
    from Cons.IH [OF rest, of "setProp (keyOf tok) v q"]
    obtain q' where q': "forEachParam rest (setProp (keyOf tok) v q) = Inr q'"
      and look: "\<And>k. map_of q' k =
                 (if k = ''__proto__'' then map_of (setProp (keyOf tok) v q) k
                  else (case lastValue (filter (\<lambda>t. keyOf t \<noteq> []) rest) k of
                          None \<Rightarrow> map_of (setProp (keyOf tok) v q) k | Some v \<Rightarrow> Some v))"
      by blast
    have "forEachParam (tok # rest) q = Inr q'"
      using False v q' by (simp add: queryParam_spec)
    moreover have "map_of q' k =
                 (if k = ''__proto__'' then map_of q k
                  else (case lastValue (filter (\<lambda>t. keyOf t \<noteq> []) (tok # rest)) k of
                          None \<Rightarrow> map_of q k | Some v \<Rightarrow> Some v))" for k
    proof (cases "k = ''__proto__''")
      case True
      with look [of k] show ?thesis by (simp add: map_of_setProp)
    next
      case k: False
      have ok: "\<exists>v. valueOf t = Inr v"
        if "find (\<lambda>t. keyOf t = k) (rev (filter (\<lambda>t. keyOf t \<noteq> []) rest)) = Some t" for t
      proof -
        from find_SomeD [OF that] have "t \<in> set (filter (\<lambda>t. keyOf t \<noteq> []) rest)"
          by auto
        from firstError_None [OF rest this] show ?thesis .
      qed
      show ?thesis
      proof (cases "find (\<lambda>t. keyOf t = k) (rev (filter (\<lambda>t. keyOf t \<noteq> []) rest))")
        case None
        with False v k look [of k] show ?thesis
          by (simp add: lastValue_def find_append map_of_setProp)
      next
        case (Some t)
        with ok obtain w where "valueOf t = Inr w" by blast
        with Some False v k look [of k] show ?thesis
          by (simp add: lastValue_def find_append)
      qed
    qed
    ultimately show ?thesis by blast
  qed
qed

lemma forEachParam_error:
  assumes "firstError (filter (\<lambda>t. keyOf t \<noteq> []) tokens) = Some e"
  shows "forEachParam tokens q = Inl e"
  using assms
proof (induction tokens arbitrary: q)
  case Nil
  then show ?case by (simp add: firstError_def)
next
  case (Cons tok rest)
  show ?case
  proof (cases "keyOf tok = []")
    case True
    with Cons show ?thesis by (simp add: queryParam_spec)
  next
    case False
    show ?thesis
    proof (cases "valueOf tok")
      case (Inl e')
      with False Cons.prems show ?thesis
        by (simp add: queryParam_spec firstError_Cons)
    next
      case (Inr v)
      with False Cons.prems
      have "firstError (filter (\<lambda>t. keyOf t \<noteq> []) rest) = Some e"
        by (simp add: firstError_Cons)
      from Cons.IH [OF this] False Inr show ?thesis
        by (simp add: queryParam_spec)
    qed
  qed
qed

lemma pathnameOf_spec: "pathnameOf url = takeWhile (\<lambda>x. x \<noteq> CHR ''?'') url"
  by (simp add: pathnameOf_def hd_js_split)

lemma parseQuery_tokens:
  "parseQuery url =
     (if queryTokens url = []
         \<and> takeWhile (\<lambda>x. x \<noteq> CHR ''?'') (drop 1 (dropWhile (\<lambda>x. x \<noteq> CHR ''?'') url)) = []
      then Inr []
      else forEachParam
             (js_split CHR ''&''
                (takeWhile (\<lambda>x. x \<noteq> CHR ''?'') (drop 1 (dropWhile (\<lambda>x. x \<noteq> CHR ''?'') url))))
             [])"
proof -
  let ?qs = "takeWhile (\<lambda>x. x \<noteq> CHR ''?'') (drop 1 (dropWhile (\<lambda>x. x \<noteq> CHR ''?'') url))"
  have second: "(case tl (js_split CHR ''?'' url) of [] \<Rightarrow> [] | v # rest \<Rightarrow> v) = ?qs"
    by (rule second_js_split)
  show ?thesis
  proof (cases "?qs = []")
    case True
    then have "parseQuery url = Inr []"
      using second by (auto simp: parseQuery_def queryStringOf_def split: list.splits)
    moreover from True have "queryTokens url = []" by (simp add: queryTokens_def)
    ultimately show ?thesis using True by simp
  next
    case False
    then have "parseQuery url = forEachParam (js_split CHR ''&'' ?qs) []"
      using second by (auto simp: parseQuery_def queryStringOf_def split: list.splits)
    with False show ?thesis by simp
  qed
qed

lemma parseQuery_ok:
  assumes "firstError (queryTokens url) = None"
  shows "\<exists>query. parseQuery url = Inr query \<and> (\<forall>k. map_of query k = lastValue (queryTokens url) k)"
proof -
  let ?qs = "takeWhile (\<lambda>x. x \<noteq> CHR ''?'') (drop 1 (dropWhile (\<lambda>x. x \<noteq> CHR ''?'') url))"
  show ?thesis
  proof (cases "?qs = []")
    case True
    then have "queryTokens url = []" by (simp add: queryTokens_def)
    with True show ?thesis by (simp add: parseQuery_tokens lastValue_def)
  next
    case False
    then have pq: "parseQuery url = forEachParam (js_split CHR ''&'' ?qs) []"
      by (simp add: parseQuery_tokens)
    from False have qt: "queryTokens url = filter (\<lambda>t. keyOf t \<noteq> []) (js_split CHR ''&'' ?qs)"
      by (simp add: queryTokens_def)
    with assms have "firstError (filter (\<lambda>t. keyOf t \<noteq> []) (js_split CHR ''&'' ?qs)) = None"
      by simp
    from forEachParam_ok [OF this, of "[]"]
    obtain q' where q': "forEachParam (js_split CHR ''&'' ?qs) [] = Inr q'"
      and look: "\<And>k. map_of q' k =
                 (if k = ''__proto__'' then map_of [] k
                  else (case lastValue (filter (\<lambda>t. keyOf t \<noteq> []) (js_split CHR ''&'' ?qs)) k of
                          None \<Rightarrow> map_of [] k | Some v \<Rightarrow> Some v))"
      by blast
    have "map_of q' k = lastValue (queryTokens url) k" for k
    proof (cases "k = ''__proto__''")
      case True
      with look [of k] show ?thesis by (simp add: lastValue_def)
    next
      case False
      with look [of k] qt show ?thesis
        by (cases "lastValue (queryTokens url) k") simp_all
    qed
    with pq q' show ?thesis by simp
  qed
qed

lemma parseQuery_error:
  assumes "firstError (queryTokens url) = Some e"
  shows "parseQuery url = Inl e"
proof -
  let ?qs = "takeWhile (\<lambda>x. x \<noteq> CHR ''?'') (drop 1 (dropWhile (\<lambda>x. x \<noteq> CHR ''?'') url))"
  from assms have ne: "?qs \<noteq> []"
    by (auto simp: queryTokens_def firstError_def Let_def split: if_splits)
  then have pq: "parseQuery url = forEachParam (js_split CHR ''&'' ?qs) []"
    by (simp add: parseQuery_tokens)
  from ne have qt: "queryTokens url = filter (\<lambda>t. keyOf t \<noteq> []) (js_split CHR ''&'' ?qs)"
    by (simp add: queryTokens_def)
  with assms have "firstError (filter (\<lambda>t. keyOf t \<noteq> []) (js_split CHR ''&'' ?qs)) = Some e"
    by simp
  from forEachParam_error [OF this, of "[]"] pq show ?thesis by simp
qed

subsection \<open>Matching\<close>

lemma allRoutes_unfold: "allRoutes r = r # treeRoutes (children r)"
  by (cases r) (simp add: treeRoutes_def)

lemma treeRoutes_Cons: "treeRoutes (r # rs) = r # treeRoutes (children r) @ treeRoutes rs"
  by (simp add: treeRoutes_def allRoutes_unfold)

lemma bestMatchLoop_first:
  assumes "\<forall>r\<in>set rs. \<not> isl (RegExp (convertPathToRegex (path r)))"
  shows "bestMatchLoop rs p b l =
           Inr (if int (length p) \<le> l then b
                else (case find (routeMatches p) rs of None \<Rightarrow> b | Some r \<Rightarrow> Some r))"
  using assms
proof (induction rs arbitrary: b l)
  case Nil
  then show ?case by simp
next
  case (Cons route routes)
  from Cons.prems obtain regex where re: "RegExp (convertPathToRegex (path route)) = Inr regex"
    by (cases "RegExp (convertPathToRegex (path route))") auto
  from Cons.prems have rest: "\<forall>r\<in>set routes. \<not> isl (RegExp (convertPathToRegex (path r)))"
    by simp
  show ?case
  proof (cases "regexMatches regex p")
    case True
    with re have m: "routeMatches p route" by (simp add: routeMatches_def)
    from True re m show ?thesis
      by (simp add: js_match_def Cons.IH [OF rest])
  next
    case False
    with re have m: "\<not> routeMatches p route" by (simp add: routeMatches_def)
    from False re m show ?thesis
      by (simp add: js_match_def Cons.IH [OF rest])
  qed
qed

lemma findMatchingRoute_first:
  assumes "\<forall>r\<in>set rs. \<not> isl (RegExp (convertPathToRegex (path r)))"
  shows "findMatchingRoute rs p =
           Inr (case find (routeMatches p) rs of
                  None \<Rightarrow> find (\<lambda>r. path r = ''*'') rs
                | Some r \<Rightarrow> Some r)"
  by (simp add: findMatchingRoute_def bestMatchLoop_first [OF assms] split: option.splits)

lemma findMatchingRoute2_none:
  "find (routeMatches2 p) rs = None \<Longrightarrow> findMatchingRoute2 rs p cur = (None, cur)"
  by (induction rs) (auto simp: routeMatches2_def split: if_splits)

lemma findMatchingRoute2_in_tree:
  "findMatchingRoute2 rs p cur = (Some c, cur') \<Longrightarrow> c \<in> set (treeRoutes rs)"
proof (induction rs p cur arbitrary: c cur' rule: findMatchingRoute2.induct)
  case (1 pathname cur)
  then show ?case by simp
next
  case (2 route routes pathname cur)
  have here: "route \<in> set (treeRoutes (route # routes))"
    by (simp add: treeRoutes_Cons)
  have sub: "set (treeRoutes (children route)) \<subseteq> set (treeRoutes (route # routes))"
    and sub2: "set (treeRoutes routes) \<subseteq> set (treeRoutes (route # routes))"
    by (auto simp: treeRoutes_Cons)
  note res = \<open>findMatchingRoute2 (route # routes) pathname cur = (Some c, cur')\<close>
  show ?case
  proof (cases "path route = pathname \<or> path route = ''*''")
    case True
    then have "findMatchingRoute2 (route # routes) pathname cur = (Some route, cur)"
      by auto
    with res here show ?thesis by simp
  next
    case False
    then have ne: "path route \<noteq> pathname" and star: "path route \<noteq> ''*''" by simp_all
    show ?thesis
    proof (cases "length (segments (path route)) \<noteq> length (segments pathname)")
      case True
      with ne star have "findMatchingRoute2 (route # routes) pathname cur
          = findMatchingRoute2 routes pathname cur" by simp
      with res have "findMatchingRoute2 routes pathname cur = (Some c, cur')" by simp
      from "2.IH"(1) [OF ne star True this] sub2 show ?thesis by blast
    next
      case len: False
      show ?thesis
      proof (cases "matchSegments (segments (path route)) (segments pathname) []")
        case None
        with ne star len have "findMatchingRoute2 (route # routes) pathname cur
          = findMatchingRoute2 routes pathname cur" by simp
        with res have "findMatchingRoute2 routes pathname cur = (Some c, cur')" by simp
        from "2.IH"(2) [OF ne star len None this] sub2 show ?thesis by blast
      next
        case (Some params)
        obtain found cur1 where kid: "findMatchingRoute2 (children route) pathname params = (found, cur1)"
          by (cases "findMatchingRoute2 (children route) pathname params") auto
        show ?thesis
        proof (cases found)
          case None
          with kid Some ne star len
          have "findMatchingRoute2 (route # routes) pathname cur = (Some route, cur1)" by simp
          with res here show ?thesis by simp
        next
          case (Some child)
          with kid \<open>matchSegments _ _ _ = Some params\<close> ne star len
          have "findMatchingRoute2 (route # routes) pathname cur = (Some child, cur1)" by simp
          with res have "c = child" by simp
          with kid Some have "findMatchingRoute2 (children route) pathname params = (Some c, cur1)"
            by simp
          from "2.IH"(3) [OF ne star len \<open>matchSegments _ _ _ = Some params\<close> this] sub
          show ?thesis by blast
        qed
      qed
    qed
  qed
qed

lemma findMatchingRoute2_first:
  assumes "find (routeMatches2 p) rs = Some r"
  shows "\<exists>c cur'. findMatchingRoute2 rs p cur = (Some c, cur') \<and> c \<in> set (allRoutes r)
           \<and> (children r = [] \<or> path r = p \<or> path r = ''*'' \<longrightarrow> c = r)"
  using assms
proof (induction rs)
  case Nil
  then show ?case by simp
next
  case (Cons route routes)
  show ?case
  proof (cases "routeMatches2 p route")
    case False
    with Cons have "\<exists>c cur'. findMatchingRoute2 routes p cur = (Some c, cur') \<and> c \<in> set (allRoutes r)
           \<and> (children r = [] \<or> path r = p \<or> path r = ''*'' \<longrightarrow> c = r)"
      by simp
    moreover from False have "findMatchingRoute2 (route # routes) p cur = findMatchingRoute2 routes p cur"
      by (auto simp: routeMatches2_def)
    ultimately show ?thesis by simp
  next
    case True
    with Cons.prems have r: "r = route" by simp
    show ?thesis
    proof (cases "path route = p \<or> path route = ''*''")
      case True
      then show ?thesis using r by (auto simp: allRoutes_unfold)
    next
      case False
      with True obtain params where len: "length (segments (path route)) = length (segments p)"
        and ms: "matchSegments (segments (path route)) (segments p) [] = Some params"
        by (auto simp: routeMatches2_def)
      show ?thesis
      proof (cases "findMatchingRoute2 (children route) p params")
        case (Pair found cur1)
        show ?thesis
        proof (cases found)
          case None
          with Pair False len ms r show ?thesis by (simp add: allRoutes_unfold)
        next
          case (Some child)
          with Pair have "child \<in> set (treeRoutes (children route))"
            using findMatchingRoute2_in_tree by blast
          moreover from Some Pair have "children route \<noteq> []" by auto
          ultimately show ?thesis using Some Pair False len ms r
            by (simp add: allRoutes_unfold)
        qed
      qed
    qed
  qed
qed

lemma findMatchingRoute2_skip:
  "\<not> routeMatches2 p route \<Longrightarrow>
     findMatchingRoute2 (route # rest) p cur = findMatchingRoute2 rest p cur"
  by (auto simp: routeMatches2_def)

lemma findMatchingRoute2_exact:
  assumes "find (routeMatches2 p) rs = Some r"
  shows "(path r = p \<or> path r = ''*'' \<longrightarrow> findMatchingRoute2 rs p cur = (Some r, cur))
       \<and> (path r \<noteq> p \<and> path r \<noteq> ''*'' \<longrightarrow>
            (\<exists>ps. matchSegments (segments (path r)) (segments p) [] = Some ps
               \<and> findMatchingRoute2 rs p cur =
                   (case findMatchingRoute2 (children r) p ps of
                      (Some c, cur') \<Rightarrow> (Some c, cur')
                    | (None, cur') \<Rightarrow> (Some r, cur'))))"
  using assms
proof (induction rs)
  case Nil
  then show ?case by simp
next
  case (Cons route rest)
  show ?case
  proof (cases "routeMatches2 p route")
    case False
    with Cons.prems have "find (routeMatches2 p) rest = Some r" by simp
    from Cons.IH [OF this] findMatchingRoute2_skip [OF False, of rest cur]
    show ?thesis by (simp only:)
  next
    case True
    with Cons.prems have r: "r = route" by simp
    show ?thesis
    proof (cases "path route = p \<or> path route = ''*''")
      case eq: True
      then have "findMatchingRoute2 (route # rest) p cur = (Some route, cur)" by auto
      with eq r show ?thesis by blast
    next
      case False
      with True obtain ps where len: "length (segments (path route)) = length (segments p)"
        and ms: "matchSegments (segments (path route)) (segments p) [] = Some ps"
        by (auto simp: routeMatches2_def)
      from False len ms
      have "findMatchingRoute2 (route # rest) p cur =
              (case findMatchingRoute2 (children route) p ps of
                 (Some c, cur') \<Rightarrow> (Some c, cur')
               | (None, cur') \<Rightarrow> (Some route, cur'))"
        by simp
      with False ms r show ?thesis by blast
    qed
  qed
qed

text \<open>
  C5 (as the code has it). Among sibling routes, \<open>_findMatchingRoute\<close> returns the
  first declared route that matches the pathname. In router.ts, when the paths of the
  siblings lie in the fragment of patterns that is modelled (plain characters, \<open>.\<close>,
  \<open>:name\<close> segments and \<open>*\<close>), every match spans the whole pathname, so the comparison
  of match lengths never prefers a later route; the first route with path \<open>*\<close> is the
  fallback when no pattern matches. In router2.ts the loop stops at the first route that
  is equal to the pathname, is the wildcard or matches segment by segment. A route found
  by equality or as the wildcard is returned itself, with the parameters unchanged. A
  route found by its segments is returned with the parameters that \<open>matchSegments\<close>
  extracted, unless the same search, run on its children with the whole pathname, finds a
  route: then that route is returned, with the parameters that search left.
\<close>

theorem findMatchingRoute_first_declared:
  "((\<forall>r\<in>set rs. \<not> isl (RegExp (convertPathToRegex (path r)))) \<longrightarrow>
      findMatchingRoute rs p =
        Inr (case find (routeMatches p) rs of
               None \<Rightarrow> find (\<lambda>r. path r = ''*'') rs
             | Some r \<Rightarrow> Some r))
   \<and> (find (routeMatches2 p) rs = None \<longrightarrow> findMatchingRoute2 rs p cur = (None, cur))
   \<and> (\<forall>r. find (routeMatches2 p) rs = Some r \<longrightarrow>
         (\<exists>c cur'. findMatchingRoute2 rs p cur = (Some c, cur') \<and> c \<in> set (allRoutes r)
            \<and> (children r = [] \<or> path r = p \<or> path r = ''*'' \<longrightarrow> c = r))
         \<and> (path r = p \<or> path r = ''*'' \<longrightarrow> findMatchingRoute2 rs p cur = (Some r, cur))
         \<and> (path r \<noteq> p \<and> path r \<noteq> ''*'' \<longrightarrow>
              (\<exists>ps. matchSegments (segments (path r)) (segments p) [] = Some ps
                 \<and> findMatchingRoute2 rs p cur =
                     (case findMatchingRoute2 (children r) p ps of
                        (Some c, cur') \<Rightarrow> (Some c, cur')
                      | (None, cur') \<Rightarrow> (Some r, cur')))))"
proof (intro conjI impI allI)
  assume "\<forall>r\<in>set rs. \<not> isl (RegExp (convertPathToRegex (path r)))"
  then show "findMatchingRoute rs p =
        Inr (case find (routeMatches p) rs of
               None \<Rightarrow> find (\<lambda>r. path r = ''*'') rs
             | Some r \<Rightarrow> Some r)"
    by (rule findMatchingRoute_first)
next
  assume "find (routeMatches2 p) rs = None"
  then show "findMatchingRoute2 rs p cur = (None, cur)"
    by (rule findMatchingRoute2_none)
next
  fix r
  assume "find (routeMatches2 p) rs = Some r"
  then show "\<exists>c cur'. findMatchingRoute2 rs p cur = (Some c, cur') \<and> c \<in> set (allRoutes r)
            \<and> (children r = [] \<or> path r = p \<or> path r = ''*'' \<longrightarrow> c = r)"
    by (rule findMatchingRoute2_first)
next
  fix r
  assume "find (routeMatches2 p) rs = Some r" and "path r = p \<or> path r = ''*''"
  with findMatchingRoute2_exact [of p rs r cur]
  show "findMatchingRoute2 rs p cur = (Some r, cur)" by blast
next
  fix r
  assume "find (routeMatches2 p) rs = Some r" and "path r \<noteq> p \<and> path r \<noteq> ''*''"
  with findMatchingRoute2_exact [of p rs r cur]
  show "\<exists>ps. matchSegments (segments (path r)) (segments p) [] = Some ps
          \<and> findMatchingRoute2 rs p cur =
              (case findMatchingRoute2 (children r) p ps of
                 (Some c, cur') \<Rightarrow> (Some c, cur')
               | (None, cur') \<Rightarrow> (Some r, cur'))" by blast
qed

theorem findMatchingRoute_first_declared_witness:
  "list_all (\<lambda>r. \<not> isl (RegExp (convertPathToRegex (path r))))
      [plainRoute ''/a/b'', plainRoute ''/a/:x'']
   \<and> findMatchingRoute [plainRoute ''/a/b'', plainRoute ''/a/:x''] ''/a/b''
        = Inr (Some (plainRoute ''/a/b''))
   \<and> find (routeMatches2 ''/a/b'') [plainRoute ''/a/b'', plainRoute ''/a/:x'']
        = Some (plainRoute ''/a/b'')
   \<and> findMatchingRoute2 [plainRoute ''/a/b'', plainRoute ''/a/:x''] ''/a/b'' [(''id'', ''5'')]
        = (Some (plainRoute ''/a/b''), [(''id'', ''5'')])
   \<and> find (routeMatches2 ''/x'') [plainRoute ''/a/b'', plainRoute ''/a/:x''] = None
   \<and> findMatchingRoute2 [plainRoute ''/a/b'', plainRoute ''/a/:x''] ''/x'' [] = (None, [])
   \<and> find (routeMatches2 ''/a/b'')
        [Route ''/:x/:y'' None None None [] [plainRoute ''/a/:z''] [] [] [] [] None,
         plainRoute ''/a/b'']
        = Some (Route ''/:x/:y'' None None None [] [plainRoute ''/a/:z''] [] [] [] [] None)
   \<and> findMatchingRoute2
        [Route ''/:x/:y'' None None None [] [plainRoute ''/a/:z''] [] [] [] [] None,
         plainRoute ''/a/b''] ''/a/b'' []
        = (Some (plainRoute ''/a/:z''), [(''z'', ''b'')])"
proof -
  let ?rs = "[plainRoute ''/a/b'', plainRoute ''/a/:x'']"
  let ?top = "Route ''/:x/:y'' None None None [] [plainRoute ''/a/:z''] [] [] [] [] None"
  have h1: "\<forall>r\<in>set ?rs. \<not> isl (RegExp (convertPathToRegex (path r)))"
    by code_simp
  have f1: "find (routeMatches ''/a/b'') ?rs = Some (plainRoute ''/a/b'')"
    by code_simp
  have f2: "find (routeMatches2 ''/a/b'') ?rs = Some (plainRoute ''/a/b'')"
    by code_simp
  have f3: "find (routeMatches2 ''/x'') ?rs = None"
    by code_simp
  have f4: "find (routeMatches2 ''/a/b'') [?top, plainRoute ''/a/b''] = Some ?top"
    by code_simp
  have k: "path (plainRoute ''/a/b'') = ''/a/b''"
    by (simp add: plainRoute_def)
  have k4: "path ?top \<noteq> ''/a/b'' \<and> path ?top \<noteq> ''*''"
    by simp
  have m4: "matchSegments (segments (path ?top)) (segments ''/a/b'') []
              = Some [(''x'', ''a''), (''y'', ''b'')]"
    by code_simp
  have c4: "findMatchingRoute2 (children ?top) ''/a/b'' [(''x'', ''a''), (''y'', ''b'')]
              = (Some (plainRoute ''/a/:z''), [(''z'', ''b'')])"
    by code_simp
  from findMatchingRoute_first_declared [where rs = ?rs and p = "''/a/b''"] h1 f1
  have c1: "findMatchingRoute ?rs ''/a/b'' = Inr (Some (plainRoute ''/a/b''))"
    by simp
  from findMatchingRoute_first_declared
         [where rs = ?rs and p = "''/a/b''" and cur = "[(''id'', ''5'')]"] f2 k
  have c2: "findMatchingRoute2 ?rs ''/a/b'' [(''id'', ''5'')]
              = (Some (plainRoute ''/a/b''), [(''id'', ''5'')])"
    by blast
  from findMatchingRoute_first_declared [where rs = ?rs and p = "''/x''" and cur = "[]"] f3
  have c3: "findMatchingRoute2 ?rs ''/x'' [] = (None, [])"
    by blast
  from findMatchingRoute_first_declared
         [where rs = "[?top, plainRoute ''/a/b'']" and p = "''/a/b''" and cur = "[]"] f4 k4
  obtain ps where ms: "matchSegments (segments (path ?top)) (segments ''/a/b'') [] = Some ps"
    and eq: "findMatchingRoute2 [?top, plainRoute ''/a/b''] ''/a/b'' [] =
           (case findMatchingRoute2 (children ?top) ''/a/b'' ps of
              (Some c, cur') \<Rightarrow> (Some c, cur')
            | (None, cur') \<Rightarrow> (Some ?top, cur'))"
    by blast
  from ms m4 have ps: "ps = [(''x'', ''a''), (''y'', ''b'')]"
    by (metis option.inject)
  from eq
  have c5: "findMatchingRoute2 [?top, plainRoute ''/a/b''] ''/a/b'' []
              = (Some (plainRoute ''/a/:z''), [(''z'', ''b'')])"
    by (simp only: ps c4 prod.case option.case)
  from h1 c1 f2 c2 f3 c3 f4 c5 show ?thesis by (simp add: list_all_iff)
qed

theorem findMatchingRoute_literal_counterexample:
  "findMatchingRoute [plainRoute ''/a/:x'', plainRoute ''/a/b''] ''/a/b''
     = Inr (Some (plainRoute ''/a/:x''))
   \<and> findMatchingRoute2 [plainRoute ''/a/:x'', plainRoute ''/a/b''] ''/a/b'' []
     = (Some (plainRoute ''/a/:x''), [(''x'', ''b'')])"
  by code_simp

text \<open>
  C10 (as the code has it). In the segment matcher, two pathnames with the same non-empty
  \<open>/\<close>-separated segments give the same route and the same parameters, provided neither
  is equal, as a string, to the path of a route of the tree.
\<close>

theorem findMatchingRoute2_segments:
  assumes "segments p = segments q"
    and "\<forall>r\<in>set (treeRoutes rs). path r \<noteq> p \<and> path r \<noteq> q"
  shows "findMatchingRoute2 rs p cur = findMatchingRoute2 rs q cur"
  using assms
proof (induction rs p cur rule: findMatchingRoute2.induct)
  case (1 pathname cur)
  then show ?case by simp
next
  case (2 route routes pathname cur)
  from "2.prems" have ne: "path route \<noteq> pathname" "path route \<noteq> q"
    and kids: "\<forall>r\<in>set (treeRoutes (children route)). path r \<noteq> pathname \<and> path r \<noteq> q"
    and rest: "\<forall>r\<in>set (treeRoutes routes). path r \<noteq> pathname \<and> path r \<noteq> q"
    by (auto simp: treeRoutes_Cons)
  note seg = \<open>segments pathname = segments q\<close>
  show ?case
  proof (cases "path route = ''*''")
    case True
    with ne show ?thesis by simp
  next
    case star: False
    show ?thesis
    proof (cases "length (segments (path route)) \<noteq> length (segments pathname)")
      case True
      with "2.IH"(1) [OF ne(1) star True seg rest] ne star seg show ?thesis by simp
    next
      case len: False
      show ?thesis
      proof (cases "matchSegments (segments (path route)) (segments pathname) []")
        case None
        with "2.IH"(2) [OF ne(1) star len None seg rest] ne star seg len show ?thesis by simp
      next
        case (Some params)
        with "2.IH"(3) [OF ne(1) star len Some seg kids] ne star seg len show ?thesis by simp
      qed
    qed
  qed
qed

theorem findMatchingRoute2_segments_witness:
  "segments ''//users//42'' = segments ''/users/42/''
   \<and> list_all (\<lambda>r. path r \<noteq> ''//users//42'' \<and> path r \<noteq> ''/users/42/'')
         (treeRoutes [plainRoute ''/users/:id''])
   \<and> findMatchingRoute2 [plainRoute ''/users/:id''] ''/users/42/'' []
        = (Some (plainRoute ''/users/:id''), [(''id'', ''42'')])
   \<and> findMatchingRoute2 [plainRoute ''/users/:id''] ''//users//42'' []
        = (Some (plainRoute ''/users/:id''), [(''id'', ''42'')])"
proof -
  have s: "segments ''//users//42'' = segments ''/users/42/''"
    by code_simp
  have h: "\<forall>r\<in>set (treeRoutes [plainRoute ''/users/:id'']).
             path r \<noteq> ''//users//42'' \<and> path r \<noteq> ''/users/42/''"
    by code_simp
  have v: "findMatchingRoute2 [plainRoute ''/users/:id''] ''/users/42/'' []
             = (Some (plainRoute ''/users/:id''), [(''id'', ''42'')])"
    by code_simp
  from findMatchingRoute2_segments [OF s h, of "[]"] v s h show ?thesis
    by (simp add: list_all_iff)
qed

theorem findMatchingRoute2_exact_counterexample:
  "segments ''/a'' = segments ''/a/''
   \<and> findMatchingRoute2
         [Route ''/a'' None None None [] [plainRoute ''/a/''] [] [] [] [] None] ''/a'' []
       = (Some (Route ''/a'' None None None [] [plainRoute ''/a/''] [] [] [] [] None), [])
   \<and> findMatchingRoute2
         [Route ''/a'' None None None [] [plainRoute ''/a/''] [] [] [] [] None] ''/a/'' []
       = (Some (plainRoute ''/a/''), [])
   \<and> segments ''/users/:id'' = segments ''/users/:id/''
   \<and> findMatchingRoute2 [plainRoute ''/users/:id''] ''/users/:id'' []
       = (Some (plainRoute ''/users/:id''), [])
   \<and> findMatchingRoute2 [plainRoute ''/users/:id''] ''/users/:id/'' []
       = (Some (plainRoute ''/users/:id''), [(''id'', '':id'')])"
  by code_simp

subsection \<open>The query parser\<close>

lemma treeRoutes_member:
  "r \<in> set rs \<Longrightarrow> r \<in> set (treeRoutes rs) \<and> set (treeRoutes (children r)) \<subseteq> set (treeRoutes rs)"
proof (induction rs)
  case Nil
  then show ?case by simp
next
  case (Cons a rs)
  then show ?case by (auto simp: treeRoutes_Cons)
qed

lemma findMatchingRoute_total:
  assumes "\<forall>r\<in>set rs. \<not> isl (RegExp (convertPathToRegex (path r)))"
  shows "findMatchingRoute rs p = Inr None \<or> (\<exists>r\<in>set rs. findMatchingRoute rs p = Inr (Some r))"
proof (cases "find (routeMatches p) rs")
  case None
  show ?thesis
  proof (cases "find (\<lambda>r. path r = ''*'') rs")
    case n: None
    with None show ?thesis by (simp add: findMatchingRoute_first [OF assms])
  next
    case (Some r)
    from find_SomeD [OF this] Some None show ?thesis
      by (simp add: findMatchingRoute_first [OF assms])
  qed
next
  case (Some r)
  from find_SomeD [OF this] Some show ?thesis
    by (simp add: findMatchingRoute_first [OF assms])
qed

lemma extractRouteParams_total:
  "\<forall>r\<in>set (treeRoutes (children route)). \<not> isl (RegExp (convertPathToRegex (path r)))
   \<Longrightarrow> \<exists>ps. extractRouteParams route pathname params = Inr ps"
proof (induction route pathname params rule: extractRouteParams.induct)
  case (1 route pathname params)
  let ?rest = "js_join ''/'' (drop (length (segments (path route))) (segments pathname))"
  have sub: "set (children route) \<subseteq> set (treeRoutes (children route))"
    using treeRoutes_member by blast
  with "1.prems" have here: "\<forall>r\<in>set (children route). \<not> isl (RegExp (convertPathToRegex (path r)))"
    by blast
  from findMatchingRoute_total [OF here, of ?rest]
  show ?case
  proof
    assume "findMatchingRoute (children route) ?rest = Inr None"
    then show ?thesis by (subst extractRouteParams.simps) simp
  next
    assume "\<exists>r\<in>set (children route). findMatchingRoute (children route) ?rest = Inr (Some r)"
    then obtain c where c: "c \<in> set (children route)"
      and m: "findMatchingRoute (children route) ?rest = Inr (Some c)" by blast
    from treeRoutes_member [OF c] "1.prems"
    have "\<forall>r\<in>set (treeRoutes (children c)). \<not> isl (RegExp (convertPathToRegex (path r)))"
      by blast
    from "1.IH" [OF m refl this] m show ?thesis
      by (subst extractRouteParams.simps) simp
  qed
qed

lemma parsePath_total:
  assumes "inFragment rs" and "parseQuery url = Inr query"
  shows "\<exists>ps. parsePath rs url = Inr (pathnameOf url, ps, query)"
proof -
  from assms(1) have all: "\<forall>r\<in>set (treeRoutes rs). \<not> isl (RegExp (convertPathToRegex (path r)))"
    by (simp add: inFragment_def list_all_iff)
  have "set rs \<subseteq> set (treeRoutes rs)" using treeRoutes_member by blast
  with all have here: "\<forall>r\<in>set rs. \<not> isl (RegExp (convertPathToRegex (path r)))" by blast
  from findMatchingRoute_total [OF here, of "pathnameOf url"]
  show ?thesis
  proof
    assume "findMatchingRoute rs (pathnameOf url) = Inr None"
    with assms(2) show ?thesis by (simp add: parsePath_def)
  next
    assume "\<exists>r\<in>set rs. findMatchingRoute rs (pathnameOf url) = Inr (Some r)"
    then obtain r where r: "r \<in> set rs"
      and m: "findMatchingRoute rs (pathnameOf url) = Inr (Some r)" by blast
    from treeRoutes_member [OF r] all
    have "\<forall>c\<in>set (treeRoutes (children r)). \<not> isl (RegExp (convertPathToRegex (path c)))"
      by blast
    from extractRouteParams_total [OF this, of "pathnameOf url" "[]"]
    obtain ps where "extractRouteParams r (pathnameOf url) [] = Inr ps" by blast
    with assms(2) m show ?thesis by (simp add: parsePath_def)
  qed
qed

text \<open>
  C7 (as the code has it). \<open>_parsePath\<close> takes as pathname the text before the first
  \<open>?\<close> and as query string the text between the first and the second \<open>?\<close>. The query
  string is split on \<open>&\<close>; tokens with an empty key are ignored and a token with the key
  \<open>__proto__\<close> stores nothing; the key of a token is the text before its first \<open>=\<close>, its
  value the percent-decoded text between its first and its second \<open>=\<close>, the empty string
  when that text is missing or empty; the last token of a key gives the key's value. When
  every value decodes, \<open>_parsePath\<close> returns (in router.ts: when moreover the paths of the
  routes lie in the fragment of patterns that is modelled, so that the matcher it calls
  returns). When the first value that does not decode is a malformed escape,
  \<open>_parsePath\<close> throws \<open>URIError\<close>. The first two parts are about router2.ts, the last
  two about router.ts.
\<close>

theorem parsePath_query:
  "(firstError (queryTokens url) = None \<longrightarrow>
      (\<exists>query. parsePath2 cur url = Inr (takeWhile (\<lambda>x. x \<noteq> CHR ''?'') url, cur, query)
          \<and> (\<forall>k. map_of query k = lastValue (queryTokens url) k)))
   \<and> (firstError (queryTokens url) = Some URIError \<longrightarrow> parsePath2 cur url = Inl URIError)
   \<and> (firstError (queryTokens url) = None \<and> inFragment rs \<longrightarrow>
      (\<exists>ps query. parsePath rs url = Inr (takeWhile (\<lambda>x. x \<noteq> CHR ''?'') url, ps, query)
          \<and> (\<forall>k. map_of query k = lastValue (queryTokens url) k)))
   \<and> (firstError (queryTokens url) = Some URIError \<longrightarrow> parsePath rs url = Inl URIError)"
proof (intro conjI impI)
  assume "firstError (queryTokens url) = None"
  from parseQuery_ok [OF this]
  show "\<exists>query. parsePath2 cur url = Inr (takeWhile (\<lambda>x. x \<noteq> CHR ''?'') url, cur, query)
          \<and> (\<forall>k. map_of query k = lastValue (queryTokens url) k)"
    by (auto simp: parsePath2_def pathnameOf_spec)
next
  assume "firstError (queryTokens url) = Some URIError"
  from parseQuery_error [OF this]
  show "parsePath2 cur url = Inl URIError"
    by (simp add: parsePath2_def)
next
  assume a: "firstError (queryTokens url) = None \<and> inFragment rs"
  then have "firstError (queryTokens url) = None" by simp
  from parseQuery_ok [OF this]
  obtain query where q: "parseQuery url = Inr query"
    and look: "\<forall>k. map_of query k = lastValue (queryTokens url) k" by blast
  from a have "inFragment rs" by simp
  from parsePath_total [OF this q]
  obtain ps where "parsePath rs url = Inr (pathnameOf url, ps, query)" by blast
  with look
  show "\<exists>ps query. parsePath rs url = Inr (takeWhile (\<lambda>x. x \<noteq> CHR ''?'') url, ps, query)
          \<and> (\<forall>k. map_of query k = lastValue (queryTokens url) k)"
    by (auto simp: pathnameOf_spec)
next
  assume "firstError (queryTokens url) = Some URIError"
  from parseQuery_error [OF this]
  show "parsePath rs url = Inl URIError"
    by (simp add: parsePath_def)
qed

theorem parsePath_query_witness:
  "firstError (queryTokens ''/p?a=%20&b=2&__proto__=x&a=1'') = None
   \<and> (\<exists>query. parsePath2 [] ''/p?a=%20&b=2&__proto__=x&a=1'' = Inr (''/p'', [], query)
         \<and> map_of query ''a'' = Some ''1'' \<and> map_of query ''b'' = Some ''2''
         \<and> map_of query ''__proto__'' = None)
   \<and> firstError (queryTokens ''/p?a=%2'') = Some URIError
   \<and> parsePath2 [] ''/p?a=%2'' = Inl URIError
   \<and> parsePath [plainRoute ''/users/:id''] ''/p?a=%2'' = Inl URIError
   \<and> firstError (queryTokens ''/users/42?a=%C3%A9&b'') = None
   \<and> inFragment [plainRoute ''/users/:id'']
   \<and> (\<exists>ps query. parsePath [plainRoute ''/users/:id''] ''/users/42?a=%C3%A9&b''
                     = Inr (''/users/42'', ps, query)
         \<and> map_of query ''a'' = Some [CHR 0xE9] \<and> map_of query ''b'' = Some [])"
proof -
  let ?u1 = "''/p?a=%20&b=2&__proto__=x&a=1''"
  let ?u3 = "''/users/42?a=%C3%A9&b''"
  let ?rs = "[plainRoute ''/users/:id'']"
  have h1: "firstError (queryTokens ?u1) = None"
    by code_simp
  have h2: "firstError (queryTokens ''/p?a=%2'') = Some URIError"
    by code_simp
  have h3: "firstError (queryTokens ?u3) = None"
    by code_simp
  have f: "inFragment ?rs"
    by code_simp
  have a: "lastValue (queryTokens ?u1) ''a'' = Some ''1''"
    by code_simp
  have b: "lastValue (queryTokens ?u1) ''b'' = Some ''2''"
    by code_simp
  have c: "lastValue (queryTokens ?u1) ''__proto__'' = None"
    by code_simp
  have a3: "lastValue (queryTokens ?u3) ''a'' = Some [CHR 0xE9]"
    by code_simp
  have b3: "lastValue (queryTokens ?u3) ''b'' = Some []"
    by code_simp
  have p1: "takeWhile (\<lambda>x. x \<noteq> CHR ''?'') ?u1 = ''/p''"
    by simp
  have p3: "takeWhile (\<lambda>x. x \<noteq> CHR ''?'') ?u3 = ''/users/42''"
    by simp
  from parsePath_query [where url = ?u1 and cur = "[]" and rs = ?rs] h1
  obtain query where q: "parsePath2 [] ?u1 = Inr (takeWhile (\<lambda>x. x \<noteq> CHR ''?'') ?u1, [], query)"
    and look: "\<And>k. map_of query k = lastValue (queryTokens ?u1) k"
    by blast
  from q p1 look [of "''a''"] look [of "''b''"] look [of "''__proto__''"] a b c
  have c1: "\<exists>query. parsePath2 [] ?u1 = Inr (''/p'', [], query)
         \<and> map_of query ''a'' = Some ''1'' \<and> map_of query ''b'' = Some ''2''
         \<and> map_of query ''__proto__'' = None"
    by simp
  from parsePath_query [where url = "''/p?a=%2''" and cur = "[]" and rs = ?rs] h2
  have c2: "parsePath2 [] ''/p?a=%2'' = Inl URIError"
    and c4: "parsePath ?rs ''/p?a=%2'' = Inl URIError"
    by blast+
  from parsePath_query [where url = ?u3 and cur = "[]" and rs = ?rs] h3 f
  obtain ps query3 where q3: "parsePath ?rs ?u3 = Inr (takeWhile (\<lambda>x. x \<noteq> CHR ''?'') ?u3, ps, query3)"
    and look3: "\<And>k. map_of query3 k = lastValue (queryTokens ?u3) k"
    by blast
  from q3 p3 look3 [of "''a''"] look3 [of "''b''"] a3 b3
  have c3: "\<exists>ps query. parsePath ?rs ?u3 = Inr (''/users/42'', ps, query)
         \<and> map_of query ''a'' = Some [CHR 0xE9] \<and> map_of query ''b'' = Some []"
    by simp
  from h1 c1 h2 c2 c4 h3 f c3 show ?thesis by simp
qed

theorem parsePath_first_split_counterexample:
  "parsePath2 [] ''/p?a=b=c'' = Inr (''/p'', [], [(''a'', ''b'')])
   \<and> parsePath [] ''/p?a=b=c'' = Inr (''/p'', [], [(''a'', ''b'')])
   \<and> afterFirst CHR ''='' ''a=b=c'' = ''b=c''
   \<and> parsePath2 [] ''/p?a=1?b=2'' = Inr (''/p'', [], [(''a'', ''1'')])
   \<and> afterFirst CHR ''?'' ''/p?a=1?b=2'' = ''a=1?b=2''"
  by code_simp

subsection \<open>One attempt of navigation\<close>

lemma checkCanActivate_eq:
  "checkCanActivate env route (attempted s pathname params query) =
     (activatePass env (candidate pathname params query route) route,
      (attempted s pathname params query)
        \<lparr>calls := calls s @ activateCalls (candidate pathname params query route) route\<rparr>)"
  by (simp add: checkCanActivate_def attempted_def candidate_def activatedOf_def
      activatePass_def activateCalls_def list_all_iff list_ex_iff)

lemma checkCanLoad_eq:
  "checkCanLoad env route (s\<lparr>calls := cs\<rparr>) =
     (loadPass env route, s\<lparr>calls := cs @ loadCalls route\<rparr>)"
  by (auto simp: checkCanLoad_def loadPass_def loadCalls_def hasLoader_def list_all_iff list_ex_iff)

lemma checkCanDeactivate_eq:
  "checkCanDeactivate env route ((attempted s pathname params query)\<lparr>calls := cs\<rparr>) =
     (deactivatePass env s (candidate pathname params query route) route,
      (attempted s pathname params query)
        \<lparr>calls := cs @ deactivateCalls s (candidate pathname params query route) route\<rparr>)"
  by (auto simp: checkCanDeactivate_def deactivatePass_def deactivateCalls_def attempted_def
      candidate_def activatedOf_def list_all_iff list_ex_iff)

lemma resolveData_eq:
  "resolveData env route ((attempted s pathname params query)\<lparr>calls := cs\<rparr>) =
     (resolved env (candidate pathname params query route) route,
      (attempted s pathname params query)
        \<lparr>calls := cs @ resolveCalls (candidate pathname params query route) route\<rparr>)"
  by (simp add: resolveData_def resolved_def resolveCalls_def attempted_def candidate_def
      activatedOf_def)


lemma attempted_sel [simp]:
  "currentParams (attempted s pathname params query) = params"
  "currentPath (attempted s pathname params query) = pathname"
  "currentQuery (attempted s pathname params query) = query"
  "routes (attempted s pathname params query) = routes s"
  "calls (attempted s pathname params query) = calls s"
  "events (attempted s pathname params query) = events s"
  "history (attempted s pathname params query) = history s"
  "currentComponentRef (attempted s pathname params query) = currentComponentRef s"
  "rootElement (attempted s pathname params query) = rootElement s"
  by (simp_all add: attempted_def)


lemma handleRouting_matched:
  assumes "parsePath (routes s) url = Inr (pathname, params, query)"
    and "findMatchingRoute (routes s) pathname = Inr (Some route)"
  shows "handleRouting (Suc n) env s url =
     (let a = candidate pathname params query route;
          s0 = attempted s pathname params query;
          c1 = calls s @ activateCalls a route;
          c2 = c1 @ loadCalls route;
          c3 = c2 @ deactivateCalls s a route
      in if \<not> activatePass env a route then (Blocked, s0\<lparr>calls := c1\<rparr>)
         else if \<not> loadPass env route then (Blocked, s0\<lparr>calls := c2\<rparr>)
         else if \<not> deactivatePass env s a route then (Blocked, s0\<lparr>calls := c3\<rparr>)
         else afterGuards n env (s0\<lparr>calls := c3\<rparr>) url pathname params query route)"
proof -
  have s0: "s\<lparr>currentParams := params, currentPath := pathname, currentQuery := query\<rparr>
              = attempted s pathname params query"
    by (simp add: attempted_def)
  show ?thesis
    unfolding handleRouting.simps assms sum.case prod.case option.case s0 afterGuards_def Let_def
      checkCanActivate_eq
    by (simp add: checkCanLoad_eq checkCanDeactivate_eq resolveData_eq
        split: sum.splits option.splits prod.splits)
qed

lemma handleRouting2_matched:
  assumes "parsePath2 (currentParams s) url = Inr (pathname, params, query)"
    and "findMatchingRoute2 (routes s) pathname params = (Some route, cur)"
  shows "handleRouting2 (Suc n) env s url =
     (let a = candidate pathname cur query route;
          s0 = attempted s pathname cur query;
          c1 = calls s @ activateCalls a route
      in if \<not> activatePass env a route then (Blocked, s0\<lparr>calls := c1\<rparr>)
         else afterGuards2 n env (s0\<lparr>calls := c1\<rparr>) url pathname params cur query route)"
proof -
  have s0: "s\<lparr>currentParams := cur, currentPath := pathname, currentQuery := query\<rparr>
              = attempted s pathname cur query"
    by (simp add: attempted_def)
  show ?thesis
    unfolding handleRouting2.simps assms sum.case prod.case option.case s0 afterGuards2_def Let_def
      checkCanActivate_eq
    by (simp add: resolveData_eq split: sum.splits option.splits prod.splits)
qed

lemma settleAll_pass:
  "list_all (\<lambda>(key, v). v \<noteq> None) xs \<Longrightarrow> \<exists>d. settleAll xs acc = Inr d"
  by (induction xs acc rule: settleAll.induct) auto

lemma settleAll_fail:
  "\<not> list_all (\<lambda>(key, v). v \<noteq> None) xs \<Longrightarrow> \<exists>k. settleAll xs acc = Inl (ResolverRejected k)"
  by (induction xs acc rule: settleAll.induct) auto

lemma resolved_pass:
  "resolvePass env a route \<Longrightarrow> \<exists>d. resolved env a route = Inr d"
  unfolding resolved_def resolvePass_def
  by (rule settleAll_pass) (simp add: list_all_iff case_prod_unfold)

lemma resolved_fail:
  "\<not> resolvePass env a route \<Longrightarrow> \<exists>k. resolved env a route = Inl (ResolverRejected k)"
  unfolding resolved_def resolvePass_def
  by (rule settleAll_fail) (simp add: list_all_iff case_prod_unfold)

declare handleRouting.simps [simp del] handleRouting2.simps [simp del]

lemma setRoot_sel [simp]:
  "currentParams (setRoot v s) = currentParams s"
  "currentPath (setRoot v s) = currentPath s"
  "currentQuery (setRoot v s) = currentQuery s"
  "events (setRoot v s) = events s"
  "history (setRoot v s) = history s"
  "calls (setRoot v s) = calls s"
  "routes (setRoot v s) = routes s"
  by (simp_all add: setRoot_def split: option.splits)

lemma renderAngularComponent_sel [simp]:
  "currentParams (renderAngularComponent c a s) = currentParams s"
  "currentPath (renderAngularComponent c a s) = currentPath s"
  "currentQuery (renderAngularComponent c a s) = currentQuery s"
  "events (renderAngularComponent c a s) = events s"
  "history (renderAngularComponent c a s) = history s"
  "calls (renderAngularComponent c a s) = calls s"
  "routes (renderAngularComponent c a s) = routes s"
  by (simp_all add: renderAngularComponent_def)

lemma loadError_sel [simp]:
  "currentParams (loadError r a s) = currentParams s"
  "currentPath (loadError r a s) = currentPath s"
  "currentQuery (loadError r a s) = currentQuery s"
  "events (loadError r a s) = events s"
  "history (loadError r a s) = history s"
  "calls (loadError r a s) = calls s"
  "routes (loadError r a s) = routes s"
  by (simp_all add: loadError_def split: option.splits)

lemma loadAndRender_fails:
  assumes "loaderFails route"
  shows "\<exists>s5. loadAndRender route a s = (True, s5)
           \<and> currentParams s5 = currentParams s \<and> currentPath s5 = currentPath s
           \<and> currentQuery s5 = currentQuery s \<and> events s5 = events s
           \<and> history s5 = history s"
  using assms
  by (auto simp: loadAndRender_def loaderFails_def split: option.splits promise.splits)

lemma loadAndMount2_fails:
  assumes "loaderFails route"
  shows "\<exists>s5. loadAndMount2 route a s = (True, s5)
           \<and> currentParams s5 = currentParams s \<and> currentPath s5 = currentPath s
           \<and> currentQuery s5 = currentQuery s \<and> events s5 = events s
           \<and> history s5 = history s"
  using assms
  by (auto simp: loadAndMount2_def loaderFails_def split: option.splits promise.splits)

lemma parsePath2_params:
  "parsePath2 cur url = Inr (pathname, params, query) \<Longrightarrow> params = cur"
  by (auto simp: parsePath2_def split: sum.splits)

lemma afterGuards_redirect:
  assumes "resolvePass env (candidate pathname params query route) route"
    and "redirectTarget route = Some target"
  shows "afterGuards n env s3 url pathname params query route =
           navigate n env
             (s3\<lparr>calls := calls s3 @ resolveCalls (candidate pathname params query route) route\<rparr>)
             (handleRedirect target params) True"
proof -
  from resolved_pass [OF assms(1)] obtain d
    where "resolved env (candidate pathname params query route) route = Inr d" by blast
  with assms(2) show ?thesis by (simp add: afterGuards_def)
qed

lemma afterGuards2_redirect:
  assumes "resolvePass env (candidate pathname cur query route) route"
    and "redirectTarget route = Some target"
  shows "afterGuards2 n env s1 url pathname params cur query route =
           navigate2 n env
             (s1\<lparr>calls := calls s1 @ resolveCalls (candidate pathname cur query route) route\<rparr>)
             target True"
proof -
  from resolved_pass [OF assms(1)] obtain d
    where "resolved env (candidate pathname cur query route) route = Inr d" by blast
  with assms(2) show ?thesis by (simp add: afterGuards2_def)
qed

lemma afterGuards_resolver_fails:
  assumes "\<not> resolvePass env (candidate pathname params query route) route"
  shows "\<exists>k. afterGuards n env s3 url pathname params query route =
           (Threw (ResolverRejected k),
            s3\<lparr>calls := calls s3 @ resolveCalls (candidate pathname params query route) route\<rparr>)"
proof -
  from resolved_fail [OF assms] obtain k
    where "resolved env (candidate pathname params query route) route = Inl (ResolverRejected k)"
    by blast
  then show ?thesis by (simp add: afterGuards_def)
qed

lemma afterGuards2_resolver_fails:
  assumes "\<not> resolvePass env (candidate pathname cur query route) route"
  shows "\<exists>k. afterGuards2 n env s1 url pathname params cur query route =
           (Threw (ResolverRejected k),
            s1\<lparr>calls := calls s1 @ resolveCalls (candidate pathname cur query route) route\<rparr>)"
proof -
  from resolved_fail [OF assms] obtain k
    where "resolved env (candidate pathname cur query route) route = Inl (ResolverRejected k)"
    by blast
  then show ?thesis by (simp add: afterGuards2_def)
qed

lemma afterGuards_load_fails:
  assumes "resolvePass env (candidate pathname params query route) route"
    and "redirectTarget route = None" and "loaderFails route"
  shows "\<exists>s'. afterGuards n env s3 url pathname params query route = (LoadFailed, s')
           \<and> currentParams s' = currentParams s3 \<and> currentPath s' = currentPath s3
           \<and> currentQuery s' = currentQuery s3
           \<and> events s' = events s3 @ [RouteChange url params query]
           \<and> history s' = history s3"
proof -
  from resolved_pass [OF assms(1)] obtain d
    where d: "resolved env (candidate pathname params query route) route = Inr d" by blast
  let ?s4 = "s3\<lparr>calls := calls s3 @ resolveCalls (candidate pathname params query route) route\<rparr>"
  from loadAndRender_fails [OF assms(3),
      of "ActivatedRoute params query pathname (spread (data route) d)" ?s4]
  obtain s5 where s5: "loadAndRender route
        (ActivatedRoute params query pathname (spread (data route) d)) ?s4 = (True, s5)"
    and sel: "currentParams s5 = currentParams ?s4" "currentPath s5 = currentPath ?s4"
      "currentQuery s5 = currentQuery ?s4" "events s5 = events ?s4" "history s5 = history ?s4"
    by blast
  from d assms(2) s5 have "afterGuards n env s3 url pathname params query route
      = (LoadFailed, dispatchEvent (RouteChange url params query) s5)"
    by (simp add: afterGuards_def)
  with sel show ?thesis by (simp add: dispatchEvent_def)
qed

lemma afterGuards2_load_fails:
  assumes "resolvePass env (candidate pathname cur query route) route"
    and "redirectTarget route = None" and "loaderFails route"
  shows "\<exists>s'. afterGuards2 n env s1 url pathname params cur query route = (LoadFailed, s')
           \<and> currentParams s' = currentParams s1 \<and> currentPath s' = currentPath s1
           \<and> currentQuery s' = currentQuery s1
           \<and> events s' = events s1 @ [RouteChange url params query]
           \<and> history s' = history s1"
proof -
  from resolved_pass [OF assms(1)] obtain d
    where d: "resolved env (candidate pathname cur query route) route = Inr d" by blast
  let ?s2 = "s1\<lparr>calls := calls s1 @ resolveCalls (candidate pathname cur query route) route\<rparr>"
  from loadAndMount2_fails [OF assms(3),
      of "ActivatedRoute cur query pathname (spread (data route) d)" ?s2]
  obtain s3 where s3: "loadAndMount2 route
        (ActivatedRoute cur query pathname (spread (data route) d)) ?s2 = (True, s3)"
    and sel: "currentParams s3 = currentParams ?s2" "currentPath s3 = currentPath ?s2"
      "currentQuery s3 = currentQuery ?s2" "events s3 = events ?s2" "history s3 = history ?s2"
    by blast
  from d assms(2) s3 have "afterGuards2 n env s1 url pathname params cur query route
      = (LoadFailed, dispatchEvent (RouteChange url params query) s3)"
    by (simp add: afterGuards2_def)
  with sel show ?thesis by (simp add: dispatchEvent_def)
qed

subsection \<open>Guard rejection\<close>

lemma pushed_sel [simp]:
  "routes (pushed s url replace) = routes s"
  "currentParams (pushed s url replace) = currentParams s"
  "currentComponentRef (pushed s url replace) = currentComponentRef s"
  "calls (pushed s url replace) = calls s"
  "events (pushed s url replace) = events s"
  "rootElement (pushed s url replace) = rootElement s"
  "history (pushed s url replace) = history s @ [(replace, url)]"
  by (simp_all add: pushed_def)

lemma navigate_pushed:
  "navigate n env s url replace = handleRouting n env (pushed s url replace) url"
  "navigate2 n env s url replace = handleRouting2 n env (pushed s url replace) url"
  by (simp_all add: pushed_def)

lemma handleRouting_blocked:
  assumes p: "parsePath (routes s) url = Inr (pathname, params, query)"
    and m: "findMatchingRoute (routes s) pathname = Inr (Some route)"
    and rej: "\<not> activatePass env (candidate pathname params query route) route
           \<or> \<not> loadPass env route
           \<or> \<not> deactivatePass env s (candidate pathname params query route) route"
  shows "\<exists>cs. handleRouting (Suc n) env s url
              = (Blocked, (attempted s pathname params query)\<lparr>calls := calls s @ cs\<rparr>)
            \<and> LoadChildrenCall \<notin> set cs \<and> LoadComponentCall \<notin> set cs"
proof -
  let ?a = "candidate pathname params query route"
  have g: "LoadChildrenCall \<notin> set (activateCalls ?a route @ loadCalls route
                @ deactivateCalls s ?a route)"
    "LoadComponentCall \<notin> set (activateCalls ?a route @ loadCalls route
                @ deactivateCalls s ?a route)"
    by (auto simp: activateCalls_def loadCalls_def deactivateCalls_def)
  show ?thesis
  proof (cases "activatePass env ?a route")
    case False
    then have "handleRouting (Suc n) env s url
          = (Blocked, (attempted s pathname params query)
               \<lparr>calls := calls s @ activateCalls ?a route\<rparr>)"
      by (simp add: handleRouting_matched [OF p m] Let_def)
    with g show ?thesis by auto
  next
    case act: True
    show ?thesis
    proof (cases "loadPass env route")
      case False
      with act have "handleRouting (Suc n) env s url
          = (Blocked, (attempted s pathname params query)
               \<lparr>calls := calls s @ (activateCalls ?a route @ loadCalls route)\<rparr>)"
        by (simp add: handleRouting_matched [OF p m] Let_def)
      with g show ?thesis by auto
    next
      case ld: True
      with act rej have "\<not> deactivatePass env s ?a route" by simp
      with act ld have "handleRouting (Suc n) env s url
          = (Blocked, (attempted s pathname params query)
               \<lparr>calls := calls s @ (activateCalls ?a route @ loadCalls route
                    @ deactivateCalls s ?a route)\<rparr>)"
        by (simp add: handleRouting_matched [OF p m] Let_def)
      with g show ?thesis by auto
    qed
  qed
qed

lemma handleRouting2_blocked:
  assumes p: "parsePath2 (currentParams s) url = Inr (pathname, params, query)"
    and m: "findMatchingRoute2 (routes s) pathname params = (Some route, cur)"
    and rej: "\<not> activatePass env (candidate pathname cur query route) route"
  shows "\<exists>cs. handleRouting2 (Suc n) env s url
              = (Blocked, (attempted s pathname cur query)\<lparr>calls := calls s @ cs\<rparr>)
            \<and> LoadChildrenCall \<notin> set cs \<and> LoadComponentCall \<notin> set cs"
proof -
  from rej have "handleRouting2 (Suc n) env s url
          = (Blocked, (attempted s pathname cur query)
               \<lparr>calls := calls s @ activateCalls (candidate pathname cur query route) route\<rparr>)"
    by (simp add: handleRouting2_matched [OF p m] Let_def)
  moreover have "LoadChildrenCall \<notin> set (activateCalls (candidate pathname cur query route) route)"
    "LoadComponentCall \<notin> set (activateCalls (candidate pathname cur query route) route)"
    by (auto simp: activateCalls_def)
  ultimately show ?thesis by blast
qed

text \<open>
  C2 (as the code has it). On a call of \<open>_handleRouting\<close> on which some guard rejects,
  \<open>_handleRouting\<close> returns without dispatching a \<open>routechange\<close> event and without calling
  a loader, touching neither the history nor the root element; but \<open>currentPath\<close> and
  \<open>currentQuery\<close> hold the attempted pathname and query, which are assigned before the
  route is matched, and \<open>currentParams\<close> holds, in router.ts, the parameters extracted
  for the attempted pathname and, in router2.ts, what \<open>_findMatchingRoute\<close> left there:
  the parameters the router held before, when the first route of the configured list that
  matches is equal to the pathname or is the wildcard. The state after the call is the
  state before it with these three fields overwritten and the guard calls recorded. When
  the call comes from \<open>navigate\<close>, the state before it has the history entry that
  \<open>navigate\<close> added, and that entry stays. Parts one and four are about router.ts, the
  others about router2.ts.
\<close>

theorem guard_rejection_state:
  "(parsePath (routes s) url = Inr (pathname, params, query)
      \<and> findMatchingRoute (routes s) pathname = Inr (Some route)
      \<and> (\<not> activatePass env (candidate pathname params query route) route
           \<or> \<not> loadPass env route
           \<or> \<not> deactivatePass env s (candidate pathname params query route) route)
    \<longrightarrow> (\<exists>cs. handleRouting (Suc n) env s url
              = (Blocked, (attempted s pathname params query)\<lparr>calls := calls s @ cs\<rparr>)
            \<and> LoadChildrenCall \<notin> set cs \<and> LoadComponentCall \<notin> set cs))
   \<and> (parsePath2 (currentParams s) url = Inr (pathname, params, query)
      \<and> findMatchingRoute2 (routes s) pathname params = (Some route, cur)
      \<and> \<not> activatePass env (candidate pathname cur query route) route
    \<longrightarrow> (\<exists>cs. handleRouting2 (Suc n) env s url
              = (Blocked, (attempted s pathname cur query)\<lparr>calls := calls s @ cs\<rparr>)
            \<and> LoadChildrenCall \<notin> set cs \<and> LoadComponentCall \<notin> set cs))
   \<and> (parsePath2 (currentParams s) url = Inr (pathname, params, query)
      \<and> find (routeMatches2 pathname) (routes s) = Some route
      \<and> (path route = pathname \<or> path route = ''*'')
      \<and> \<not> activatePass env (candidate pathname (currentParams s) query route) route
    \<longrightarrow> (\<exists>cs. handleRouting2 (Suc n) env s url
              = (Blocked, (attempted s pathname (currentParams s) query)\<lparr>calls := calls s @ cs\<rparr>)
            \<and> LoadChildrenCall \<notin> set cs \<and> LoadComponentCall \<notin> set cs))
   \<and> (parsePath (routes s) url = Inr (pathname, params, query)
      \<and> findMatchingRoute (routes s) pathname = Inr (Some route)
      \<and> (\<not> activatePass env (candidate pathname params query route) route
           \<or> \<not> loadPass env route
           \<or> \<not> deactivatePass env s (candidate pathname params query route) route)
    \<longrightarrow> (\<exists>cs. navigate (Suc n) env s url replace
              = (Blocked, (attempted (pushed s url replace) pathname params query)
                            \<lparr>calls := calls s @ cs\<rparr>)))
   \<and> (parsePath2 (currentParams s) url = Inr (pathname, params, query)
      \<and> findMatchingRoute2 (routes s) pathname params = (Some route, cur)
      \<and> \<not> activatePass env (candidate pathname cur query route) route
    \<longrightarrow> (\<exists>cs. navigate2 (Suc n) env s url replace
              = (Blocked, (attempted (pushed s url replace) pathname cur query)
                            \<lparr>calls := calls s @ cs\<rparr>)))"
proof (intro conjI impI)
  assume "parsePath (routes s) url = Inr (pathname, params, query)
      \<and> findMatchingRoute (routes s) pathname = Inr (Some route)
      \<and> (\<not> activatePass env (candidate pathname params query route) route
           \<or> \<not> loadPass env route
           \<or> \<not> deactivatePass env s (candidate pathname params query route) route)"
  then show "\<exists>cs. handleRouting (Suc n) env s url
              = (Blocked, (attempted s pathname params query)\<lparr>calls := calls s @ cs\<rparr>)
            \<and> LoadChildrenCall \<notin> set cs \<and> LoadComponentCall \<notin> set cs"
    using handleRouting_blocked by blast
next
  assume "parsePath2 (currentParams s) url = Inr (pathname, params, query)
      \<and> findMatchingRoute2 (routes s) pathname params = (Some route, cur)
      \<and> \<not> activatePass env (candidate pathname cur query route) route"
  then show "\<exists>cs. handleRouting2 (Suc n) env s url
              = (Blocked, (attempted s pathname cur query)\<lparr>calls := calls s @ cs\<rparr>)
            \<and> LoadChildrenCall \<notin> set cs \<and> LoadComponentCall \<notin> set cs"
    using handleRouting2_blocked by blast
next
  assume a: "parsePath2 (currentParams s) url = Inr (pathname, params, query)
      \<and> find (routeMatches2 pathname) (routes s) = Some route
      \<and> (path route = pathname \<or> path route = ''*'')
      \<and> \<not> activatePass env (candidate pathname (currentParams s) query route) route"
  then have p: "parsePath2 (currentParams s) url = Inr (pathname, params, query)"
    and f: "find (routeMatches2 pathname) (routes s) = Some route"
    and e: "path route = pathname \<or> path route = ''*''"
    and rej: "\<not> activatePass env (candidate pathname (currentParams s) query route) route"
    by simp_all
  from parsePath2_params [OF p] have ps: "params = currentParams s" .
  from findMatchingRoute2_exact [OF f, of params] e
  have "findMatchingRoute2 (routes s) pathname params = (Some route, params)" by blast
  with ps have m: "findMatchingRoute2 (routes s) pathname params = (Some route, currentParams s)"
    by simp
  from handleRouting2_blocked [OF p m rej]
  show "\<exists>cs. handleRouting2 (Suc n) env s url
              = (Blocked, (attempted s pathname (currentParams s) query)\<lparr>calls := calls s @ cs\<rparr>)
            \<and> LoadChildrenCall \<notin> set cs \<and> LoadComponentCall \<notin> set cs" .
next
  assume a: "parsePath (routes s) url = Inr (pathname, params, query)
      \<and> findMatchingRoute (routes s) pathname = Inr (Some route)
      \<and> (\<not> activatePass env (candidate pathname params query route) route
           \<or> \<not> loadPass env route
           \<or> \<not> deactivatePass env s (candidate pathname params query route) route)"
  let ?s = "pushed s url replace"
  from a have p: "parsePath (routes ?s) url = Inr (pathname, params, query)"
    and m: "findMatchingRoute (routes ?s) pathname = Inr (Some route)"
    and rej: "\<not> activatePass env (candidate pathname params query route) route
           \<or> \<not> loadPass env route
           \<or> \<not> deactivatePass env ?s (candidate pathname params query route) route"
    by (simp_all add: deactivatePass_def)
  from handleRouting_blocked [OF p m rej, of n]
  show "\<exists>cs. navigate (Suc n) env s url replace
              = (Blocked, (attempted ?s pathname params query)\<lparr>calls := calls s @ cs\<rparr>)"
    unfolding navigate_pushed pushed_sel by blast
next
  assume a: "parsePath2 (currentParams s) url = Inr (pathname, params, query)
      \<and> findMatchingRoute2 (routes s) pathname params = (Some route, cur)
      \<and> \<not> activatePass env (candidate pathname cur query route) route"
  let ?s = "pushed s url replace"
  from a have p: "parsePath2 (currentParams ?s) url = Inr (pathname, params, query)"
    and m: "findMatchingRoute2 (routes ?s) pathname params = (Some route, cur)"
    and rej: "\<not> activatePass env (candidate pathname cur query route) route"
    by simp_all
  from handleRouting2_blocked [OF p m rej, of n]
  show "\<exists>cs. navigate2 (Suc n) env s url replace
              = (Blocked, (attempted ?s pathname cur query)\<lparr>calls := calls s @ cs\<rparr>)"
    unfolding navigate_pushed pushed_sel by blast
qed

theorem guard_rejection_state_witness:
  "parsePath (routes visitedA) ''/b'' = Inr (''/b'', [], [])
   \<and> findMatchingRoute (routes visitedA) ''/b'' = Inr (Some routeB)
   \<and> \<not> activatePass (rejecting 1) (candidate ''/b'' [] [] routeB) routeB
   \<and> (\<exists>cs. handleRouting (Suc 0) (rejecting 1) visitedA ''/b''
          = (Blocked, (attempted visitedA ''/b'' [] [])\<lparr>calls := calls visitedA @ cs\<rparr>))
   \<and> (\<exists>s'. navigate (Suc 0) (rejecting 1) visitedA ''/b'' False = (Blocked, s')
          \<and> history s' = history visitedA @ [(False, ''/b'')]
          \<and> events s' = events visitedA \<and> currentPath s' = ''/b'')
   \<and> currentParams visitedNew2 = [(''id'', ''5'')]
   \<and> parsePath2 (currentParams visitedNew2) ''/b'' = Inr (''/b'', [(''id'', ''5'')], [])
   \<and> findMatchingRoute2 (routes visitedNew2) ''/b'' [(''id'', ''5'')]
        = (Some routeB, [(''id'', ''5'')])
   \<and> find (routeMatches2 ''/b'') (routes visitedNew2) = Some routeB
   \<and> path routeB = ''/b''
   \<and> \<not> activatePass (rejecting 1) (candidate ''/b'' [(''id'', ''5'')] [] routeB) routeB
   \<and> (\<exists>s'. handleRouting2 (Suc 0) (rejecting 1) visitedNew2 ''/b'' = (Blocked, s')
          \<and> currentPath s' = ''/b'' \<and> currentParams s' = [(''id'', ''5'')]
          \<and> events s' = events visitedNew2 \<and> history s' = history visitedNew2)
   \<and> (\<exists>s'. navigate2 (Suc 0) (rejecting 1) visitedNew2 ''/b'' False = (Blocked, s')
          \<and> history s' = history visitedNew2 @ [(False, ''/b'')]
          \<and> currentParams s' = [(''id'', ''5'')])"
proof -
  let ?ps = "[(''id'', ''5'')]"
  have p: "parsePath (routes visitedA) ''/b'' = Inr (''/b'', [], [])"
    by code_simp
  have m: "findMatchingRoute (routes visitedA) ''/b'' = Inr (Some routeB)"
    by code_simp
  have r: "\<not> activatePass (rejecting 1) (candidate ''/b'' [] [] routeB) routeB"
    by code_simp
  have cp: "currentParams visitedNew2 = ?ps"
    by code_simp
  have p2: "parsePath2 (currentParams visitedNew2) ''/b'' = Inr (''/b'', ?ps, [])"
    by code_simp
  have m2: "findMatchingRoute2 (routes visitedNew2) ''/b'' ?ps = (Some routeB, ?ps)"
    by code_simp
  have f2: "find (routeMatches2 ''/b'') (routes visitedNew2) = Some routeB"
    by code_simp
  have e2: "path routeB = ''/b''"
    by (simp add: routeB_def)
  have r2: "\<not> activatePass (rejecting 1) (candidate ''/b'' ?ps [] routeB) routeB"
    by code_simp
  note thm1 = guard_rejection_state
    [where s = visitedA and url = "''/b''" and pathname = "''/b''" and params = "[]"
       and query = "[]" and route = routeB and env = "rejecting 1" and n = 0 and cur = "[]"
       and replace = False]
  note thm2 = guard_rejection_state
    [where s = visitedNew2 and url = "''/b''" and pathname = "''/b''" and params = ?ps
       and query = "[]" and route = routeB and env = "rejecting 1" and n = 0 and cur = ?ps
       and replace = False]
  from thm1 p m r
  have c1: "\<exists>cs. handleRouting (Suc 0) (rejecting 1) visitedA ''/b''
          = (Blocked, (attempted visitedA ''/b'' [] [])\<lparr>calls := calls visitedA @ cs\<rparr>)"
    by blast
  from thm1 p m r
  obtain cs where "navigate (Suc 0) (rejecting 1) visitedA ''/b'' False
          = (Blocked, (attempted (pushed visitedA ''/b'' False) ''/b'' [] [])
                        \<lparr>calls := calls visitedA @ cs\<rparr>)"
    by blast
  then have c2: "\<exists>s'. navigate (Suc 0) (rejecting 1) visitedA ''/b'' False = (Blocked, s')
          \<and> history s' = history visitedA @ [(False, ''/b'')]
          \<and> events s' = events visitedA \<and> currentPath s' = ''/b''"
    by simp
  from thm2 p2 f2 e2 r2 cp
  obtain cs3 where "handleRouting2 (Suc 0) (rejecting 1) visitedNew2 ''/b''
          = (Blocked, (attempted visitedNew2 ''/b'' (currentParams visitedNew2) [])
                        \<lparr>calls := calls visitedNew2 @ cs3\<rparr>)"
    by metis
  with cp have c3: "\<exists>s'. handleRouting2 (Suc 0) (rejecting 1) visitedNew2 ''/b'' = (Blocked, s')
          \<and> currentPath s' = ''/b'' \<and> currentParams s' = ?ps
          \<and> events s' = events visitedNew2 \<and> history s' = history visitedNew2"
    by simp
  from thm2 p2 m2 r2
  obtain cs4 where "navigate2 (Suc 0) (rejecting 1) visitedNew2 ''/b'' False
          = (Blocked, (attempted (pushed visitedNew2 ''/b'' False) ''/b'' ?ps [])
                        \<lparr>calls := calls visitedNew2 @ cs4\<rparr>)"
    by blast
  then have c4: "\<exists>s'. navigate2 (Suc 0) (rejecting 1) visitedNew2 ''/b'' False = (Blocked, s')
          \<and> history s' = history visitedNew2 @ [(False, ''/b'')]
          \<and> currentParams s' = ?ps"
    by simp
  from p m r c1 c2 cp p2 m2 f2 e2 r2 c3 c4 show ?thesis by blast
qed

theorem guard_rejection_state_counterexample:
  "currentPath visitedA = ''/a''
   \<and> fst (navigate 1 (rejecting 1) visitedA ''/b'' False) = Blocked
   \<and> currentPath (snd (navigate 1 (rejecting 1) visitedA ''/b'' False)) = ''/b''
   \<and> currentPath visitedA2 = ''/a''
   \<and> fst (navigate2 1 (rejecting 1) visitedA2 ''/b'' False) = Blocked
   \<and> currentPath (snd (navigate2 1 (rejecting 1) visitedA2 ''/b'' False)) = ''/b''"
  by code_simp

text \<open>
  C4 (as the code has it). For a matched route that has a lazy loader, when all its
  activation guards accept and some load guard rejects, the attempt has called every
  activation guard and then every load guard, and nothing else: no deactivation guard, no
  resolver, no loader; it ends \<open>Blocked\<close>. The activation guards come first: when one of
  them rejects, no load guard is called.
\<close>

theorem load_guard_rejection:
  "(parsePath (routes s) url = Inr (pathname, params, query)
      \<and> findMatchingRoute (routes s) pathname = Inr (Some route)
      \<and> hasLoader route
      \<and> activatePass env (candidate pathname params query route) route
      \<and> \<not> list_all (\<lambda>g. canLoad_of env g route) (canLoad route)
    \<longrightarrow> handleRouting (Suc n) env s url
          = (Blocked, (attempted s pathname params query)
               \<lparr>calls := calls s @ activateCalls (candidate pathname params query route) route
                    @ map (\<lambda>g. CanLoadCall g route) (canLoad route)\<rparr>))
   \<and> (parsePath (routes s) url = Inr (pathname, params, query)
      \<and> findMatchingRoute (routes s) pathname = Inr (Some route)
      \<and> \<not> activatePass env (candidate pathname params query route) route
    \<longrightarrow> handleRouting (Suc n) env s url
          = (Blocked, (attempted s pathname params query)
               \<lparr>calls := calls s @ activateCalls (candidate pathname params query route) route\<rparr>))"
proof (intro conjI impI)
  assume a: "parsePath (routes s) url = Inr (pathname, params, query)
      \<and> findMatchingRoute (routes s) pathname = Inr (Some route)
      \<and> hasLoader route
      \<and> activatePass env (candidate pathname params query route) route
      \<and> \<not> list_all (\<lambda>g. canLoad_of env g route) (canLoad route)"
  then have p: "parsePath (routes s) url = Inr (pathname, params, query)"
    and m: "findMatchingRoute (routes s) pathname = Inr (Some route)" by simp_all
  from a have "\<not> loadPass env route" and "loadCalls route = map (\<lambda>g. CanLoadCall g route) (canLoad route)"
    by (simp_all add: loadPass_def loadCalls_def)
  with a show "handleRouting (Suc n) env s url
          = (Blocked, (attempted s pathname params query)
               \<lparr>calls := calls s @ activateCalls (candidate pathname params query route) route
                    @ map (\<lambda>g. CanLoadCall g route) (canLoad route)\<rparr>)"
    by (simp add: handleRouting_matched [OF p m] Let_def)
next
  assume a: "parsePath (routes s) url = Inr (pathname, params, query)
      \<and> findMatchingRoute (routes s) pathname = Inr (Some route)
      \<and> \<not> activatePass env (candidate pathname params query route) route"
  then have p: "parsePath (routes s) url = Inr (pathname, params, query)"
    and m: "findMatchingRoute (routes s) pathname = Inr (Some route)" by simp_all
  from a show "handleRouting (Suc n) env s url
          = (Blocked, (attempted s pathname params query)
               \<lparr>calls := calls s @ activateCalls (candidate pathname params query route) route\<rparr>)"
    by (simp add: handleRouting_matched [OF p m] Let_def)
qed


theorem load_guard_rejection_witness:
  "parsePath (routes visitedA) ''/e'' = Inr (''/e'', [], [])
   \<and> findMatchingRoute (routes visitedA) ''/e'' = Inr (Some routeE)
   \<and> hasLoader routeE
   \<and> activatePass (rejecting 3) (candidate ''/e'' [] [] routeE) routeE
   \<and> \<not> list_all (\<lambda>g. canLoad_of (rejecting 3) g routeE) (canLoad routeE)
   \<and> handleRouting (Suc 0) (rejecting 3) visitedA ''/e''
       = (Blocked, (attempted visitedA ''/e'' [] [])
            \<lparr>calls := calls visitedA @ activateCalls (candidate ''/e'' [] [] routeE) routeE
                 @ map (\<lambda>g. CanLoadCall g routeE) (canLoad routeE)\<rparr>)
   \<and> \<not> activatePass (rejecting 2) (candidate ''/e'' [] [] routeE) routeE
   \<and> handleRouting (Suc 0) (rejecting 2) visitedA ''/e''
       = (Blocked, (attempted visitedA ''/e'' [] [])
            \<lparr>calls := calls visitedA @ activateCalls (candidate ''/e'' [] [] routeE) routeE\<rparr>)"
proof -
  have p: "parsePath (routes visitedA) ''/e'' = Inr (''/e'', [], [])"
    by code_simp
  have m: "findMatchingRoute (routes visitedA) ''/e'' = Inr (Some routeE)"
    by code_simp
  have l: "hasLoader routeE"
    by code_simp
  have a: "activatePass (rejecting 3) (candidate ''/e'' [] [] routeE) routeE"
    by code_simp
  have r: "\<not> list_all (\<lambda>g. canLoad_of (rejecting 3) g routeE) (canLoad routeE)"
    by code_simp
  have r2: "\<not> activatePass (rejecting 2) (candidate ''/e'' [] [] routeE) routeE"
    by code_simp
  from load_guard_rejection [of visitedA "''/e''" "''/e''" "[]" "[]" routeE "rejecting 3" 0]
    p m l a r
  have c1: "handleRouting (Suc 0) (rejecting 3) visitedA ''/e''
       = (Blocked, (attempted visitedA ''/e'' [] [])
            \<lparr>calls := calls visitedA @ activateCalls (candidate ''/e'' [] [] routeE) routeE
                 @ map (\<lambda>g. CanLoadCall g routeE) (canLoad routeE)\<rparr>)"
    by blast
  from load_guard_rejection [of visitedA "''/e''" "''/e''" "[]" "[]" routeE "rejecting 2" 0]
    p m r2
  have c2: "handleRouting (Suc 0) (rejecting 2) visitedA ''/e''
       = (Blocked, (attempted visitedA ''/e'' [] [])
            \<lparr>calls := calls visitedA @ activateCalls (candidate ''/e'' [] [] routeE) routeE\<rparr>)"
    by blast
  from p m l a r c1 r2 c2 show ?thesis by simp
qed

theorem load_guard_rejection_counterexample:
  "fst (navigate 1 (rejecting 3) visitedA ''/e'' False) = Blocked
   \<and> calls (snd (navigate 1 (rejecting 3) visitedA ''/e'' False))
       = calls visitedA
           @ [CanActivateCall 2 (ActivatedRoute [] [] ''/e'' []), CanLoadCall 3 routeE]"
  by code_simp

text \<open>
  C9 (as the code has it). On a navigation attempt where a component is mounted, once the
  activation guards and the load guards of the newly matched route have accepted, each of
  its deactivation guards is called with the candidate: the attempted pathname, parameters
  and query (which \<open>currentPath\<close>, \<open>currentParams\<close> and \<open>currentQuery\<close> hold by then) and
  the data of the new route. Any rejection ends the attempt \<open>Blocked\<close>; otherwise the
  attempt goes on with the resolvers.
\<close>

theorem deactivation_guards_candidate:
  "parsePath (routes s) url = Inr (pathname, params, query)
     \<and> findMatchingRoute (routes s) pathname = Inr (Some route)
     \<and> currentComponentRef s \<noteq> None
     \<and> activatePass env (candidate pathname params query route) route
     \<and> loadPass env route
   \<longrightarrow> handleRouting (Suc n) env s url
        = (if list_all
                (\<lambda>g. canDeactivate_of env g (ActivatedRoute params query pathname (data route)))
                (canDeactivate route)
           then afterGuards n env
                  ((attempted s pathname params query)
                     \<lparr>calls := calls s @ activateCalls (candidate pathname params query route) route
                        @ loadCalls route
                        @ map (\<lambda>g. CanDeactivateCall g
                                     (ActivatedRoute params query pathname (data route)))
                            (canDeactivate route)\<rparr>)
                  url pathname params query route
           else (Blocked,
                 (attempted s pathname params query)
                   \<lparr>calls := calls s @ activateCalls (candidate pathname params query route) route
                      @ loadCalls route
                      @ map (\<lambda>g. CanDeactivateCall g
                                   (ActivatedRoute params query pathname (data route)))
                          (canDeactivate route)\<rparr>))"
proof
  assume a: "parsePath (routes s) url = Inr (pathname, params, query)
     \<and> findMatchingRoute (routes s) pathname = Inr (Some route)
     \<and> currentComponentRef s \<noteq> None
     \<and> activatePass env (candidate pathname params query route) route
     \<and> loadPass env route"
  then have p: "parsePath (routes s) url = Inr (pathname, params, query)"
    and m: "findMatchingRoute (routes s) pathname = Inr (Some route)" by simp_all
  from a have d: "deactivatePass env s (candidate pathname params query route) route
      = list_all (\<lambda>g. canDeactivate_of env g (ActivatedRoute params query pathname (data route)))
          (canDeactivate route)"
    and c: "deactivateCalls s (candidate pathname params query route) route
      = map (\<lambda>g. CanDeactivateCall g (ActivatedRoute params query pathname (data route)))
          (canDeactivate route)"
    by (auto simp: deactivatePass_def deactivateCalls_def candidate_def)
  from a show "handleRouting (Suc n) env s url
        = (if list_all
                (\<lambda>g. canDeactivate_of env g (ActivatedRoute params query pathname (data route)))
                (canDeactivate route)
           then afterGuards n env
                  ((attempted s pathname params query)
                     \<lparr>calls := calls s @ activateCalls (candidate pathname params query route) route
                        @ loadCalls route
                        @ map (\<lambda>g. CanDeactivateCall g
                                     (ActivatedRoute params query pathname (data route)))
                            (canDeactivate route)\<rparr>)
                  url pathname params query route
           else (Blocked,
                 (attempted s pathname params query)
                   \<lparr>calls := calls s @ activateCalls (candidate pathname params query route) route
                      @ loadCalls route
                      @ map (\<lambda>g. CanDeactivateCall g
                                   (ActivatedRoute params query pathname (data route)))
                          (canDeactivate route)\<rparr>))"
    unfolding handleRouting_matched [OF p m] Let_def d c by simp
qed


theorem deactivation_guards_candidate_witness:
  "parsePath (routes visitedA) ''/f'' = Inr (''/f'', [], [])
   \<and> findMatchingRoute (routes visitedA) ''/f'' = Inr (Some routeF)
   \<and> currentComponentRef visitedA = Some ''A''
   \<and> activatePass (rejecting 4) (candidate ''/f'' [] [] routeF) routeF
   \<and> loadPass (rejecting 4) routeF
   \<and> handleRouting (Suc 0) (rejecting 4) visitedA ''/f''
       = (Blocked,
          (attempted visitedA ''/f'' [] [])
            \<lparr>calls := calls visitedA
                 @ [CanDeactivateCall 4 (ActivatedRoute [] [] ''/f'' [])]\<rparr>)"
proof -
  have p: "parsePath (routes visitedA) ''/f'' = Inr (''/f'', [], [])"
    by code_simp
  have m: "findMatchingRoute (routes visitedA) ''/f'' = Inr (Some routeF)"
    by code_simp
  have c: "currentComponentRef visitedA = Some ''A''"
    by code_simp
  have a: "activatePass (rejecting 4) (candidate ''/f'' [] [] routeF) routeF"
    by code_simp
  have l: "loadPass (rejecting 4) routeF"
    by code_simp
  have r: "\<not> list_all
              (\<lambda>g. canDeactivate_of (rejecting 4) g (ActivatedRoute [] [] ''/f'' (data routeF)))
              (canDeactivate routeF)"
    by code_simp
  have cs: "activateCalls (candidate ''/f'' [] [] routeF) routeF @ loadCalls routeF
      @ map (\<lambda>g. CanDeactivateCall g (ActivatedRoute [] [] ''/f'' (data routeF)))
          (canDeactivate routeF)
      = [CanDeactivateCall 4 (ActivatedRoute [] [] ''/f'' [])]"
    by code_simp
  from deactivation_guards_candidate
    [of visitedA "''/f''" "''/f''" "[]" "[]" routeF "rejecting 4" 0] p m c a l r
  have "handleRouting (Suc 0) (rejecting 4) visitedA ''/f''
       = (Blocked,
          (attempted visitedA ''/f'' [] [])
            \<lparr>calls := calls visitedA @ (activateCalls (candidate ''/f'' [] [] routeF) routeF
                 @ loadCalls routeF
                 @ map (\<lambda>g. CanDeactivateCall g (ActivatedRoute [] [] ''/f'' (data routeF)))
                     (canDeactivate routeF))\<rparr>)"
    by simp
  with cs p m c a l show ?thesis by simp
qed

theorem deactivation_guards_candidate_counterexample:
  "currentComponentRef visitedA = Some ''A''
   \<and> currentPath visitedA = ''/a''
   \<and> calls (snd (navigate 1 (rejecting 4) visitedA ''/f'' False))
       = calls visitedA @ [CanDeactivateCall 4 (ActivatedRoute [] [] ''/f'' [])]
   \<and> fst (navigate 1 (rejecting 4) visitedA ''/f'' False) = Blocked"
  by code_simp

subsection \<open>Redirects\<close>



text \<open>
  C1 (as the code has it). On a navigation attempt whose matched route has a (non-empty)
  \<open>redirectTo\<close>, the redirect is the last step before loading, not the first: the route's
  activation guards are called, then (router.ts) its load guards when it has a loader and
  its deactivation guards when a component is mounted, then its resolvers. Only when no
  guard rejected and no resolver failed does \<open>_handleRouting\<close> call
  \<open>navigate(target, true)\<close>, without loading anything and without dispatching an event.
  When a guard rejects or a resolver fails, the attempt ends there and no redirect takes
  place. The first part is about router.ts, the second about router2.ts.
\<close>

theorem redirect_after_guards:
  "(parsePath (routes s) url = Inr (pathname, params, query)
      \<and> findMatchingRoute (routes s) pathname = Inr (Some route)
      \<and> redirectTarget route = Some target
    \<longrightarrow>
      (if activatePass env (candidate pathname params query route) route
          \<and> loadPass env route
          \<and> deactivatePass env s (candidate pathname params query route) route
          \<and> resolvePass env (candidate pathname params query route) route
       then handleRouting (Suc n) env s url
              = navigate n env
                  ((attempted s pathname params query)
                     \<lparr>calls := calls s
                        @ activateCalls (candidate pathname params query route) route
                        @ loadCalls route
                        @ deactivateCalls s (candidate pathname params query route) route
                        @ resolveCalls (candidate pathname params query route) route\<rparr>)
                  (handleRedirect target params) True
       else (\<exists>out s'. handleRouting (Suc n) env s url = (out, s')
               \<and> (out = Blocked \<or> (\<exists>k. out = Threw (ResolverRejected k)))
               \<and> history s' = history s \<and> events s' = events s)))
   \<and> (parsePath2 (currentParams s) url = Inr (pathname, params, query)
      \<and> findMatchingRoute2 (routes s) pathname params = (Some route, cur)
      \<and> redirectTarget route = Some target
    \<longrightarrow>
      (if activatePass env (candidate pathname cur query route) route
          \<and> resolvePass env (candidate pathname cur query route) route
       then handleRouting2 (Suc n) env s url
              = navigate2 n env
                  ((attempted s pathname cur query)
                     \<lparr>calls := calls s
                        @ activateCalls (candidate pathname cur query route) route
                        @ resolveCalls (candidate pathname cur query route) route\<rparr>)
                  target True
       else (\<exists>out s'. handleRouting2 (Suc n) env s url = (out, s')
               \<and> (out = Blocked \<or> (\<exists>k. out = Threw (ResolverRejected k)))
               \<and> history s' = history s \<and> events s' = events s)))"
proof (intro conjI impI)
  assume a: "parsePath (routes s) url = Inr (pathname, params, query)
      \<and> findMatchingRoute (routes s) pathname = Inr (Some route)
      \<and> redirectTarget route = Some target"
  then have p: "parsePath (routes s) url = Inr (pathname, params, query)"
    and m: "findMatchingRoute (routes s) pathname = Inr (Some route)"
    and t: "redirectTarget route = Some target" by simp_all
  let ?a = "candidate pathname params query route"
  let ?s0 = "attempted s pathname params query"
  let ?c3 = "calls s @ activateCalls ?a route @ loadCalls route @ deactivateCalls s ?a route"
  show "if activatePass env ?a route \<and> loadPass env route \<and> deactivatePass env s ?a route
          \<and> resolvePass env ?a route
       then handleRouting (Suc n) env s url
              = navigate n env
                  (?s0\<lparr>calls := calls s @ activateCalls ?a route @ loadCalls route
                        @ deactivateCalls s ?a route @ resolveCalls ?a route\<rparr>)
                  (handleRedirect target params) True
       else (\<exists>out s'. handleRouting (Suc n) env s url = (out, s')
               \<and> (out = Blocked \<or> (\<exists>k. out = Threw (ResolverRejected k)))
               \<and> history s' = history s \<and> events s' = events s)"
  proof (cases "activatePass env ?a route \<and> loadPass env route \<and> deactivatePass env s ?a route")
    case False
    then have "\<exists>cs. handleRouting (Suc n) env s url = (Blocked, ?s0\<lparr>calls := cs\<rparr>)"
      by (auto simp: handleRouting_matched [OF p m] Let_def)
    then obtain cs where "handleRouting (Suc n) env s url = (Blocked, ?s0\<lparr>calls := cs\<rparr>)"
      by blast
    with False show ?thesis by auto
  next
    case True
    then have h: "handleRouting (Suc n) env s url
        = afterGuards n env (?s0\<lparr>calls := ?c3\<rparr>) url pathname params query route"
      by (simp add: handleRouting_matched [OF p m] Let_def)
    show ?thesis
    proof (cases "resolvePass env ?a route")
      case True
      from afterGuards_redirect [OF True t, of n "?s0\<lparr>calls := ?c3\<rparr>" url] h True
        \<open>activatePass env ?a route \<and> loadPass env route \<and> deactivatePass env s ?a route\<close>
      show ?thesis by simp
    next
      case False
      from afterGuards_resolver_fails [OF False, of n "?s0\<lparr>calls := ?c3\<rparr>" url] h
      obtain k where "handleRouting (Suc n) env s url
          = (Threw (ResolverRejected k),
             ?s0\<lparr>calls := ?c3\<rparr>\<lparr>calls := calls (?s0\<lparr>calls := ?c3\<rparr>) @ resolveCalls ?a route\<rparr>)"
        by auto
      with False show ?thesis by auto
    qed
  qed
next
  assume a: "parsePath2 (currentParams s) url = Inr (pathname, params, query)
      \<and> findMatchingRoute2 (routes s) pathname params = (Some route, cur)
      \<and> redirectTarget route = Some target"
  then have p: "parsePath2 (currentParams s) url = Inr (pathname, params, query)"
    and m: "findMatchingRoute2 (routes s) pathname params = (Some route, cur)"
    and t: "redirectTarget route = Some target" by simp_all
  let ?a = "candidate pathname cur query route"
  let ?s0 = "attempted s pathname cur query"
  let ?c1 = "calls s @ activateCalls ?a route"
  show "if activatePass env ?a route \<and> resolvePass env ?a route
       then handleRouting2 (Suc n) env s url
              = navigate2 n env
                  (?s0\<lparr>calls := calls s @ activateCalls ?a route @ resolveCalls ?a route\<rparr>)
                  target True
       else (\<exists>out s'. handleRouting2 (Suc n) env s url = (out, s')
               \<and> (out = Blocked \<or> (\<exists>k. out = Threw (ResolverRejected k)))
               \<and> history s' = history s \<and> events s' = events s)"
  proof (cases "activatePass env ?a route")
    case False
    then have "handleRouting2 (Suc n) env s url = (Blocked, ?s0\<lparr>calls := ?c1\<rparr>)"
      by (simp add: handleRouting2_matched [OF p m] Let_def)
    with False show ?thesis by auto
  next
    case True
    then have h: "handleRouting2 (Suc n) env s url
        = afterGuards2 n env (?s0\<lparr>calls := ?c1\<rparr>) url pathname params cur query route"
      by (simp add: handleRouting2_matched [OF p m] Let_def)
    show ?thesis
    proof (cases "resolvePass env ?a route")
      case rp: True
      from afterGuards2_redirect [OF rp t, of n "?s0\<lparr>calls := ?c1\<rparr>" url params] h rp True
      show ?thesis by simp
    next
      case False
      from afterGuards2_resolver_fails [OF False, of n "?s0\<lparr>calls := ?c1\<rparr>" url params] h
      obtain k where "handleRouting2 (Suc n) env s url
          = (Threw (ResolverRejected k),
             ?s0\<lparr>calls := ?c1\<rparr>\<lparr>calls := calls (?s0\<lparr>calls := ?c1\<rparr>) @ resolveCalls ?a route\<rparr>)"
        by auto
      with False show ?thesis by auto
    qed
  qed
qed



theorem redirect_after_guards_witness:
  "parsePath (routes visitedA) ''/old/7'' = Inr (''/old/7'', [(''id'', ''7'')], [])
   \<and> findMatchingRoute (routes visitedA) ''/old/7'' = Inr (Some routeOld)
   \<and> redirectTarget routeOld = Some ''/new/:id''
   \<and> handleRouting (Suc (Suc 0)) allowAll visitedA ''/old/7''
       = navigate (Suc 0) allowAll
           ((attempted visitedA ''/old/7'' [(''id'', ''7'')] [])
              \<lparr>calls := calls visitedA
                   @ [CanActivateCall 6 (ActivatedRoute [(''id'', ''7'')] [] ''/old/7'' [])]\<rparr>)
           ''/new/7'' True
   \<and> (\<exists>out s'. handleRouting (Suc (Suc 0)) (rejecting 6) visitedA ''/old/7'' = (out, s')
         \<and> (out = Blocked \<or> (\<exists>k. out = Threw (ResolverRejected k)))
         \<and> history s' = history visitedA \<and> events s' = events visitedA)
   \<and> parsePath2 (currentParams visitedA2) ''/old/7'' = Inr (''/old/7'', [], [])
   \<and> findMatchingRoute2 (routes visitedA2) ''/old/7'' [] = (Some routeOld, [(''id'', ''7'')])
   \<and> handleRouting2 (Suc (Suc 0)) allowAll visitedA2 ''/old/7''
       = navigate2 (Suc 0) allowAll
           ((attempted visitedA2 ''/old/7'' [(''id'', ''7'')] [])
              \<lparr>calls := calls visitedA2
                   @ [CanActivateCall 6 (ActivatedRoute [(''id'', ''7'')] [] ''/old/7'' [])]\<rparr>)
           ''/new/:id'' True"
proof -
  let ?a = "candidate ''/old/7'' [(''id'', ''7'')] [] routeOld"
  have p: "parsePath (routes visitedA) ''/old/7'' = Inr (''/old/7'', [(''id'', ''7'')], [])"
    by code_simp
  have m: "findMatchingRoute (routes visitedA) ''/old/7'' = Inr (Some routeOld)"
    by code_simp
  have t: "redirectTarget routeOld = Some ''/new/:id''"
    by code_simp
  have g: "activatePass allowAll ?a routeOld \<and> loadPass allowAll routeOld
      \<and> deactivatePass allowAll visitedA ?a routeOld \<and> resolvePass allowAll ?a routeOld"
    by code_simp
  have g2: "activatePass allowAll ?a routeOld \<and> resolvePass allowAll ?a routeOld"
    by code_simp
  have r: "\<not> activatePass (rejecting 6) ?a routeOld"
    by code_simp
  have cs: "activateCalls ?a routeOld @ loadCalls routeOld
      @ deactivateCalls visitedA ?a routeOld @ resolveCalls ?a routeOld
      = [CanActivateCall 6 (ActivatedRoute [(''id'', ''7'')] [] ''/old/7'' [])]"
    by code_simp
  have cs2: "activateCalls ?a routeOld @ resolveCalls ?a routeOld
      = [CanActivateCall 6 (ActivatedRoute [(''id'', ''7'')] [] ''/old/7'' [])]"
    by code_simp
  have tg: "handleRedirect ''/new/:id'' [(''id'', ''7'')] = ''/new/7''"
    by code_simp
  have p2: "parsePath2 (currentParams visitedA2) ''/old/7'' = Inr (''/old/7'', [], [])"
    by code_simp
  have m2: "findMatchingRoute2 (routes visitedA2) ''/old/7'' [] = (Some routeOld, [(''id'', ''7'')])"
    by code_simp
  from redirect_after_guards
    [where s = visitedA and url = "''/old/7''" and pathname = "''/old/7''"
       and params = "[(''id'', ''7'')]" and query = "[]" and route = routeOld
       and target = "''/new/:id''" and env = allowAll and n = "Suc 0" and cur = "[]"] p m t g
  have "handleRouting (Suc (Suc 0)) allowAll visitedA ''/old/7''
       = navigate (Suc 0) allowAll
           ((attempted visitedA ''/old/7'' [(''id'', ''7'')] [])
              \<lparr>calls := calls visitedA @ (activateCalls ?a routeOld @ loadCalls routeOld
                  @ deactivateCalls visitedA ?a routeOld @ resolveCalls ?a routeOld)\<rparr>)
           (handleRedirect ''/new/:id'' [(''id'', ''7'')]) True"
    by simp
  then have c1: "handleRouting (Suc (Suc 0)) allowAll visitedA ''/old/7''
       = navigate (Suc 0) allowAll
           ((attempted visitedA ''/old/7'' [(''id'', ''7'')] [])
              \<lparr>calls := calls visitedA
                   @ [CanActivateCall 6 (ActivatedRoute [(''id'', ''7'')] [] ''/old/7'' [])]\<rparr>)
           ''/new/7'' True"
    unfolding cs tg .
  from redirect_after_guards
    [where s = visitedA and url = "''/old/7''" and pathname = "''/old/7''"
       and params = "[(''id'', ''7'')]" and query = "[]" and route = routeOld
       and target = "''/new/:id''" and env = "rejecting 6" and n = "Suc 0" and cur = "[]"] p m t r
  have c2: "\<exists>out s'. handleRouting (Suc (Suc 0)) (rejecting 6) visitedA ''/old/7'' = (out, s')
         \<and> (out = Blocked \<or> (\<exists>k. out = Threw (ResolverRejected k)))
         \<and> history s' = history visitedA \<and> events s' = events visitedA"
    by simp
  from redirect_after_guards
    [where s = visitedA2 and url = "''/old/7''" and pathname = "''/old/7''"
       and params = "[]" and query = "[]" and route = routeOld
       and target = "''/new/:id''" and env = allowAll and n = "Suc 0"
       and cur = "[(''id'', ''7'')]"] p2 m2 t g2
  have "handleRouting2 (Suc (Suc 0)) allowAll visitedA2 ''/old/7''
       = navigate2 (Suc 0) allowAll
           ((attempted visitedA2 ''/old/7'' [(''id'', ''7'')] [])
              \<lparr>calls := calls visitedA2 @ (activateCalls ?a routeOld @ resolveCalls ?a routeOld)\<rparr>)
           ''/new/:id'' True"
    by simp
  then have c3: "handleRouting2 (Suc (Suc 0)) allowAll visitedA2 ''/old/7''
       = navigate2 (Suc 0) allowAll
           ((attempted visitedA2 ''/old/7'' [(''id'', ''7'')] [])
              \<lparr>calls := calls visitedA2
                   @ [CanActivateCall 6 (ActivatedRoute [(''id'', ''7'')] [] ''/old/7'' [])]\<rparr>)
           ''/new/:id'' True"
    unfolding cs2 .
  from p m t c1 c2 p2 m2 c3 show ?thesis by blast
qed

theorem redirect_after_guards_counterexample:
  "redirectTo routeOld = Some ''/new/:id''
   \<and> fst (navigate 2 (rejecting 6) visitedA ''/old/7'' False) = Blocked
   \<and> calls (snd (navigate 2 (rejecting 6) visitedA ''/old/7'' False))
       = calls visitedA @ [CanActivateCall 6 (ActivatedRoute [(''id'', ''7'')] [] ''/old/7'' [])]
   \<and> history (snd (navigate 2 (rejecting 6) visitedA ''/old/7'' False)) = [(False, ''/old/7'')]
   \<and> fst (navigate2 2 (rejecting 6) visitedA2 ''/old/7'' False) = Blocked
   \<and> calls (snd (navigate2 2 (rejecting 6) visitedA2 ''/old/7'' False))
       = calls visitedA2 @ [CanActivateCall 6 (ActivatedRoute [(''id'', ''7'')] [] ''/old/7'' [])]
   \<and> history (snd (navigate2 2 (rejecting 6) visitedA2 ''/old/7'' False)) = [(False, ''/old/7'')]"
  by code_simp





subsection \<open>Load failure\<close>

lemma handleRouting2_after_activation:
  assumes p: "parsePath2 (currentParams s) url = Inr (pathname, params, query)"
    and m: "findMatchingRoute2 (routes s) pathname params = (Some route, cur)"
    and act: "activatePass env (candidate pathname cur query route) route"
  shows "if resolvePass env (candidate pathname cur query route) route
       then redirectTarget route = None \<and> loaderFails route \<longrightarrow>
              (\<exists>s'. handleRouting2 (Suc n) env s url = (LoadFailed, s')
                 \<and> currentPath s' = pathname \<and> currentParams s' = cur
                 \<and> currentQuery s' = query
                 \<and> events s' = events s @ [RouteChange url (currentParams s) query]
                 \<and> history s' = history s)
       else (\<exists>k s'. handleRouting2 (Suc n) env s url = (Threw (ResolverRejected k), s')
                 \<and> currentPath s' = pathname \<and> currentParams s' = cur
                 \<and> currentQuery s' = query
                 \<and> events s' = events s \<and> history s' = history s)"
proof -
  from parsePath2_params [OF p] have ps: "params = currentParams s" .
  let ?a = "candidate pathname cur query route"
  let ?s1 = "(attempted s pathname cur query)\<lparr>calls := calls s @ activateCalls ?a route\<rparr>"
  from act have h: "handleRouting2 (Suc n) env s url
        = afterGuards2 n env ?s1 url pathname params cur query route"
    by (simp add: handleRouting2_matched [OF p m] Let_def)
  show ?thesis
  proof (cases "resolvePass env ?a route")
    case True
    have "\<exists>s'. handleRouting2 (Suc n) env s url = (LoadFailed, s')
                 \<and> currentPath s' = pathname \<and> currentParams s' = cur
                 \<and> currentQuery s' = query
                 \<and> events s' = events s @ [RouteChange url (currentParams s) query]
                 \<and> history s' = history s"
      if r: "redirectTarget route = None" and l: "loaderFails route"
      using afterGuards2_load_fails [OF True r l, of n ?s1 url params] h ps by auto
    with True show ?thesis by simp
  next
    case False
    from afterGuards2_resolver_fails [OF False, of n ?s1 url params] h
    obtain k where "handleRouting2 (Suc n) env s url
          = (Threw (ResolverRejected k), ?s1\<lparr>calls := calls ?s1 @ resolveCalls ?a route\<rparr>)"
      by auto
    with False show ?thesis by auto
  qed
qed

text \<open>
  C3 (as the code has it). On a call of \<open>_handleRouting\<close> whose guards accept and whose
  resolvers succeed, when the lazy loader of the matched route fails, the failure is
  caught: exactly one \<open>routechange\<close> event is dispatched, carrying the attempted path and
  query, and the controller's \<open>currentPath\<close> and \<open>currentQuery\<close> are those of the
  attempted location (they were assigned when the attempt began), not the earlier ones. In
  router.ts \<open>currentParams\<close> and the parameters of the event are those extracted for the
  attempted pathname. In router2.ts the event carries the parameters the router held
  before the attempt, and \<open>currentParams\<close> is what \<open>_findMatchingRoute\<close> left there:
  the parameters the router held before, when the first route of the configured list that
  matches is equal to the pathname or is the wildcard. When a resolver fails, the
  exception leaves
  \<open>_handleRouting\<close>: the three fields are the same as after a failed load, and no event
  is dispatched. The first part is about router.ts, the others about router2.ts.
\<close>

theorem load_failure_state:
  "(parsePath (routes s) url = Inr (pathname, params, query)
      \<and> findMatchingRoute (routes s) pathname = Inr (Some route)
      \<and> activatePass env (candidate pathname params query route) route
      \<and> loadPass env route
      \<and> deactivatePass env s (candidate pathname params query route) route
    \<longrightarrow>
      (if resolvePass env (candidate pathname params query route) route
       then redirectTarget route = None \<and> loaderFails route \<longrightarrow>
              (\<exists>s'. handleRouting (Suc n) env s url = (LoadFailed, s')
                 \<and> currentPath s' = pathname \<and> currentParams s' = params
                 \<and> currentQuery s' = query
                 \<and> events s' = events s @ [RouteChange url params query]
                 \<and> history s' = history s)
       else (\<exists>k s'. handleRouting (Suc n) env s url = (Threw (ResolverRejected k), s')
                 \<and> currentPath s' = pathname \<and> currentParams s' = params
                 \<and> currentQuery s' = query
                 \<and> events s' = events s \<and> history s' = history s)))
   \<and> (parsePath2 (currentParams s) url = Inr (pathname, params, query)
      \<and> findMatchingRoute2 (routes s) pathname params = (Some route, cur)
      \<and> activatePass env (candidate pathname cur query route) route
    \<longrightarrow>
      (if resolvePass env (candidate pathname cur query route) route
       then redirectTarget route = None \<and> loaderFails route \<longrightarrow>
              (\<exists>s'. handleRouting2 (Suc n) env s url = (LoadFailed, s')
                 \<and> currentPath s' = pathname \<and> currentParams s' = cur
                 \<and> currentQuery s' = query
                 \<and> events s' = events s @ [RouteChange url (currentParams s) query]
                 \<and> history s' = history s)
       else (\<exists>k s'. handleRouting2 (Suc n) env s url = (Threw (ResolverRejected k), s')
                 \<and> currentPath s' = pathname \<and> currentParams s' = cur
                 \<and> currentQuery s' = query
                 \<and> events s' = events s \<and> history s' = history s)))
   \<and> (parsePath2 (currentParams s) url = Inr (pathname, params, query)
      \<and> find (routeMatches2 pathname) (routes s) = Some route
      \<and> (path route = pathname \<or> path route = ''*'')
      \<and> activatePass env (candidate pathname (currentParams s) query route) route
    \<longrightarrow>
      (if resolvePass env (candidate pathname (currentParams s) query route) route
       then redirectTarget route = None \<and> loaderFails route \<longrightarrow>
              (\<exists>s'. handleRouting2 (Suc n) env s url = (LoadFailed, s')
                 \<and> currentPath s' = pathname \<and> currentParams s' = currentParams s
                 \<and> currentQuery s' = query
                 \<and> events s' = events s @ [RouteChange url (currentParams s) query]
                 \<and> history s' = history s)
       else (\<exists>k s'. handleRouting2 (Suc n) env s url = (Threw (ResolverRejected k), s')
                 \<and> currentPath s' = pathname \<and> currentParams s' = currentParams s
                 \<and> currentQuery s' = query
                 \<and> events s' = events s \<and> history s' = history s)))"
proof (intro conjI impI)
  assume a: "parsePath (routes s) url = Inr (pathname, params, query)
      \<and> findMatchingRoute (routes s) pathname = Inr (Some route)
      \<and> activatePass env (candidate pathname params query route) route
      \<and> loadPass env route
      \<and> deactivatePass env s (candidate pathname params query route) route"
  then have p: "parsePath (routes s) url = Inr (pathname, params, query)"
    and m: "findMatchingRoute (routes s) pathname = Inr (Some route)" by simp_all
  let ?a = "candidate pathname params query route"
  let ?s3 = "(attempted s pathname params query)
      \<lparr>calls := calls s @ activateCalls ?a route @ loadCalls route @ deactivateCalls s ?a route\<rparr>"
  from a have h: "handleRouting (Suc n) env s url
        = afterGuards n env ?s3 url pathname params query route"
    by (simp add: handleRouting_matched [OF p m] Let_def)
  show "if resolvePass env ?a route
       then redirectTarget route = None \<and> loaderFails route \<longrightarrow>
              (\<exists>s'. handleRouting (Suc n) env s url = (LoadFailed, s')
                 \<and> currentPath s' = pathname \<and> currentParams s' = params
                 \<and> currentQuery s' = query
                 \<and> events s' = events s @ [RouteChange url params query]
                 \<and> history s' = history s)
       else (\<exists>k s'. handleRouting (Suc n) env s url = (Threw (ResolverRejected k), s')
                 \<and> currentPath s' = pathname \<and> currentParams s' = params
                 \<and> currentQuery s' = query
                 \<and> events s' = events s \<and> history s' = history s)"
  proof (cases "resolvePass env ?a route")
    case True
    have "\<exists>s'. handleRouting (Suc n) env s url = (LoadFailed, s')
                 \<and> currentPath s' = pathname \<and> currentParams s' = params
                 \<and> currentQuery s' = query
                 \<and> events s' = events s @ [RouteChange url params query]
                 \<and> history s' = history s"
      if r: "redirectTarget route = None" and l: "loaderFails route"
      using afterGuards_load_fails [OF True r l, of n ?s3 url] h by auto
    with True show ?thesis by simp
  next
    case False
    from afterGuards_resolver_fails [OF False, of n ?s3 url] h
    obtain k where "handleRouting (Suc n) env s url
          = (Threw (ResolverRejected k), ?s3\<lparr>calls := calls ?s3 @ resolveCalls ?a route\<rparr>)"
      by auto
    with False show ?thesis by auto
  qed
next
  assume "parsePath2 (currentParams s) url = Inr (pathname, params, query)
      \<and> findMatchingRoute2 (routes s) pathname params = (Some route, cur)
      \<and> activatePass env (candidate pathname cur query route) route"
  then show "if resolvePass env (candidate pathname cur query route) route
       then redirectTarget route = None \<and> loaderFails route \<longrightarrow>
              (\<exists>s'. handleRouting2 (Suc n) env s url = (LoadFailed, s')
                 \<and> currentPath s' = pathname \<and> currentParams s' = cur
                 \<and> currentQuery s' = query
                 \<and> events s' = events s @ [RouteChange url (currentParams s) query]
                 \<and> history s' = history s)
       else (\<exists>k s'. handleRouting2 (Suc n) env s url = (Threw (ResolverRejected k), s')
                 \<and> currentPath s' = pathname \<and> currentParams s' = cur
                 \<and> currentQuery s' = query
                 \<and> events s' = events s \<and> history s' = history s)"
    using handleRouting2_after_activation by blast
next
  assume a: "parsePath2 (currentParams s) url = Inr (pathname, params, query)
      \<and> find (routeMatches2 pathname) (routes s) = Some route
      \<and> (path route = pathname \<or> path route = ''*'')
      \<and> activatePass env (candidate pathname (currentParams s) query route) route"
  then have p: "parsePath2 (currentParams s) url = Inr (pathname, params, query)"
    and f: "find (routeMatches2 pathname) (routes s) = Some route"
    and e: "path route = pathname \<or> path route = ''*''"
    and act: "activatePass env (candidate pathname (currentParams s) query route) route"
    by simp_all
  from parsePath2_params [OF p] have ps: "params = currentParams s" .
  from findMatchingRoute2_exact [OF f, of params] e
  have "findMatchingRoute2 (routes s) pathname params = (Some route, params)" by blast
  with ps have m: "findMatchingRoute2 (routes s) pathname params = (Some route, currentParams s)"
    by simp
  from handleRouting2_after_activation [OF p m act]
  show "if resolvePass env (candidate pathname (currentParams s) query route) route
       then redirectTarget route = None \<and> loaderFails route \<longrightarrow>
              (\<exists>s'. handleRouting2 (Suc n) env s url = (LoadFailed, s')
                 \<and> currentPath s' = pathname \<and> currentParams s' = currentParams s
                 \<and> currentQuery s' = query
                 \<and> events s' = events s @ [RouteChange url (currentParams s) query]
                 \<and> history s' = history s)
       else (\<exists>k s'. handleRouting2 (Suc n) env s url = (Threw (ResolverRejected k), s')
                 \<and> currentPath s' = pathname \<and> currentParams s' = currentParams s
                 \<and> currentQuery s' = query
                 \<and> events s' = events s \<and> history s' = history s)" .
qed

theorem load_failure_state_witness:
  "parsePath (routes visitedA) ''/c'' = Inr (''/c'', [], [])
   \<and> findMatchingRoute (routes visitedA) ''/c'' = Inr (Some routeC)
   \<and> loaderFails routeC
   \<and> (\<exists>s'. handleRouting (Suc 0) allowAll visitedA ''/c'' = (LoadFailed, s')
         \<and> currentPath s' = ''/c''
         \<and> events s' = events visitedA @ [RouteChange ''/c'' [] []])
   \<and> parsePath (routes visitedA) ''/d'' = Inr (''/d'', [], [])
   \<and> findMatchingRoute (routes visitedA) ''/d'' = Inr (Some routeD)
   \<and> (\<exists>k s'. handleRouting (Suc 0) (rejecting 5) visitedA ''/d'' = (Threw (ResolverRejected k), s')
         \<and> currentPath s' = ''/d'' \<and> events s' = events visitedA)
   \<and> currentParams visitedNew2 = [(''id'', ''5'')]
   \<and> parsePath2 (currentParams visitedNew2) ''/c'' = Inr (''/c'', [(''id'', ''5'')], [])
   \<and> find (routeMatches2 ''/c'') (routes visitedNew2) = Some routeC
   \<and> path routeC = ''/c''
   \<and> (\<exists>s'. handleRouting2 (Suc 0) allowAll visitedNew2 ''/c'' = (LoadFailed, s')
         \<and> currentPath s' = ''/c'' \<and> currentParams s' = [(''id'', ''5'')]
         \<and> events s' = events visitedNew2 @ [RouteChange ''/c'' [(''id'', ''5'')] []])
   \<and> parsePath2 (currentParams visitedNew2) ''/d'' = Inr (''/d'', [(''id'', ''5'')], [])
   \<and> findMatchingRoute2 (routes visitedNew2) ''/d'' [(''id'', ''5'')]
        = (Some routeD, [(''id'', ''5'')])
   \<and> (\<exists>k s'. handleRouting2 (Suc 0) (rejecting 5) visitedNew2 ''/d''
            = (Threw (ResolverRejected k), s')
         \<and> currentPath s' = ''/d'' \<and> currentParams s' = [(''id'', ''5'')]
         \<and> events s' = events visitedNew2)"
proof -
  let ?ps = "[(''id'', ''5'')]"
  let ?c = "candidate ''/c'' [] [] routeC"
  let ?d = "candidate ''/d'' [] [] routeD"
  let ?c2 = "candidate ''/c'' ?ps [] routeC"
  let ?d2 = "candidate ''/d'' ?ps [] routeD"
  have p: "parsePath (routes visitedA) ''/c'' = Inr (''/c'', [], [])"
    by code_simp
  have m: "findMatchingRoute (routes visitedA) ''/c'' = Inr (Some routeC)"
    by code_simp
  have g: "activatePass allowAll ?c routeC \<and> loadPass allowAll routeC
      \<and> deactivatePass allowAll visitedA ?c routeC"
    by code_simp
  have r: "resolvePass allowAll ?c routeC" "redirectTarget routeC = None" "loaderFails routeC"
    by code_simp+
  have pd: "parsePath (routes visitedA) ''/d'' = Inr (''/d'', [], [])"
    by code_simp
  have md: "findMatchingRoute (routes visitedA) ''/d'' = Inr (Some routeD)"
    by code_simp
  have gd: "activatePass (rejecting 5) ?d routeD \<and> loadPass (rejecting 5) routeD
      \<and> deactivatePass (rejecting 5) visitedA ?d routeD"
    by code_simp
  have rd: "\<not> resolvePass (rejecting 5) ?d routeD"
    by code_simp
  have cp: "currentParams visitedNew2 = ?ps"
    by code_simp
  have p2: "parsePath2 (currentParams visitedNew2) ''/c'' = Inr (''/c'', ?ps, [])"
    by code_simp
  have f2: "find (routeMatches2 ''/c'') (routes visitedNew2) = Some routeC"
    by code_simp
  have e2: "path routeC = ''/c''"
    by (simp add: routeC_def)
  have g2: "activatePass allowAll ?c2 routeC"
    by code_simp
  have r2: "resolvePass allowAll ?c2 routeC"
    by code_simp
  have pd2: "parsePath2 (currentParams visitedNew2) ''/d'' = Inr (''/d'', ?ps, [])"
    by code_simp
  have md2: "findMatchingRoute2 (routes visitedNew2) ''/d'' ?ps = (Some routeD, ?ps)"
    by code_simp
  have gd2: "activatePass (rejecting 5) ?d2 routeD"
    by code_simp
  have rd2: "\<not> resolvePass (rejecting 5) ?d2 routeD"
    by code_simp
  from load_failure_state
    [where s = visitedA and url = "''/c''" and pathname = "''/c''" and params = "[]"
       and query = "[]" and route = routeC and env = allowAll and n = 0 and cur = "[]"] p m g r
  have c1: "\<exists>s'. handleRouting (Suc 0) allowAll visitedA ''/c'' = (LoadFailed, s')
         \<and> currentPath s' = ''/c''
         \<and> events s' = events visitedA @ [RouteChange ''/c'' [] []]"
    by auto
  from load_failure_state
    [where s = visitedA and url = "''/d''" and pathname = "''/d''" and params = "[]"
       and query = "[]" and route = routeD and env = "rejecting 5" and n = 0 and cur = "[]"] pd md gd rd
  have c2: "\<exists>k s'. handleRouting (Suc 0) (rejecting 5) visitedA ''/d''
            = (Threw (ResolverRejected k), s')
         \<and> currentPath s' = ''/d'' \<and> events s' = events visitedA"
    by auto
  from load_failure_state
    [where s = visitedNew2 and url = "''/c''" and pathname = "''/c''" and params = ?ps
       and query = "[]" and route = routeC and env = allowAll and n = 0 and cur = ?ps]
    p2 f2 e2 g2 r2 r(2,3) cp
  have c3: "\<exists>s'. handleRouting2 (Suc 0) allowAll visitedNew2 ''/c'' = (LoadFailed, s')
         \<and> currentPath s' = ''/c'' \<and> currentParams s' = ?ps
         \<and> events s' = events visitedNew2 @ [RouteChange ''/c'' ?ps []]"
    by auto
  from load_failure_state
    [where s = visitedNew2 and url = "''/d''" and pathname = "''/d''" and params = ?ps
       and query = "[]" and route = routeD and env = "rejecting 5" and n = 0 and cur = ?ps]
    pd2 md2 gd2 rd2
  have c4: "\<exists>k s'. handleRouting2 (Suc 0) (rejecting 5) visitedNew2 ''/d''
            = (Threw (ResolverRejected k), s')
         \<and> currentPath s' = ''/d'' \<and> currentParams s' = ?ps
         \<and> events s' = events visitedNew2"
    by auto
  from p m r(3) c1 pd md c2 cp p2 f2 e2 c3 pd2 md2 c4 show ?thesis by blast
qed

theorem load_failure_state_counterexample:
  "currentPath visitedA = ''/a''
   \<and> fst (navigate 1 allowAll visitedA ''/c'' False) = LoadFailed
   \<and> currentPath (snd (navigate 1 allowAll visitedA ''/c'' False)) = ''/c''
   \<and> fst (navigate 1 (rejecting 5) visitedA ''/d'' False) = Threw (ResolverRejected ''user'')
   \<and> currentPath (snd (navigate 1 (rejecting 5) visitedA ''/d'' False)) = ''/d''
   \<and> events (snd (navigate 1 (rejecting 5) visitedA ''/d'' False)) = events visitedA
   \<and> currentPath visitedA2 = ''/a''
   \<and> fst (navigate2 1 allowAll visitedA2 ''/c'' False) = LoadFailed
   \<and> currentPath (snd (navigate2 1 allowAll visitedA2 ''/c'' False)) = ''/c''
   \<and> events (snd (navigate2 1 (rejecting 5) visitedA2 ''/d'' False)) = events visitedA2"
  by code_simp

subsection \<open>Construction\<close>

lemma findIndex_lower: "- 1 \<le> findIndex P xs"
  by (induction xs) (auto simp: Let_def)

lemma findIndex_not_last:
  "(0 \<le> findIndex P xs \<and> findIndex P xs \<noteq> int (length xs) - 1)
     = (\<exists>i. Suc i < length xs \<and> P (xs ! i))"
proof (induction xs)
  case Nil
  then show ?case by simp
next
  case (Cons x xs)
  show ?case
  proof (cases "P x")
    case True
    have "(\<exists>i. Suc i < length (x # xs) \<and> P ((x # xs) ! i)) = (xs \<noteq> [])"
    proof
      assume "\<exists>i. Suc i < length (x # xs) \<and> P ((x # xs) ! i)"
      then show "xs \<noteq> []" by auto
    next
      assume "xs \<noteq> []"
      with True have "Suc 0 < length (x # xs) \<and> P ((x # xs) ! 0)" by simp
      then show "\<exists>i. Suc i < length (x # xs) \<and> P ((x # xs) ! i)" by blast
    qed
    with True show ?thesis by auto
  next
    case False
    have low: "- 1 \<le> findIndex P xs" by (rule findIndex_lower)
    have "(\<exists>i. Suc i < length (x # xs) \<and> P ((x # xs) ! i))
            = (\<exists>j. Suc j < length xs \<and> P (xs ! j))"
    proof
      assume "\<exists>i. Suc i < length (x # xs) \<and> P ((x # xs) ! i)"
      then obtain i where i: "Suc i < length (x # xs)" "P ((x # xs) ! i)" by blast
      with False obtain j where "i = Suc j" by (cases i) auto
      with i show "\<exists>j. Suc j < length xs \<and> P (xs ! j)" by auto
    next
      assume "\<exists>j. Suc j < length xs \<and> P (xs ! j)"
      then obtain j where "Suc j < length xs" "P (xs ! j)" by blast
      then have "Suc (Suc j) < length (x # xs) \<and> P ((x # xs) ! Suc j)" by simp
      then show "\<exists>i. Suc i < length (x # xs) \<and> P ((x # xs) ! i)" by blast
    qed
    with False low Cons.IH show ?thesis
      by (auto simp: Let_def)
  qed
qed

text \<open>
  C8 (as the code has it). The constructor of router.ts throws, before it binds events
  and before any routing, exactly when the top-level route list has a route with path
  \<open>*\<close> that is not its last element (which is the case whenever it has two such
  routes). The sibling lists under \<open>children\<close> are not checked. The constructor of
  router2.ts checks nothing and never throws.
\<close>

theorem constructor_wildcard_check:
  "Router n env rs root location =
     (if \<exists>i. Suc i < length rs \<and> path (rs ! i) = ''*'' then Inl ConfigurationError
      else Inr (handleRouting n env (initial rs root) location))
   \<and> Router2 n env rs root location = Inr (handleRouting2 n env (initial rs root) location)"
  using findIndex_not_last [of "\<lambda>r. path r = ''*''" rs]
  by (simp add: Router_def Router2_def)



theorem constructor_wildcard_check_witness:
  "Router 1 allowAll [plainRoute ''*'', plainRoute ''/a''] None ''/a'' = Inl ConfigurationError
   \<and> Router 1 allowAll [plainRoute ''*'', plainRoute ''*''] None ''/a'' = Inl ConfigurationError
   \<and> Router 1 allowAll [plainRoute ''/a'', plainRoute ''*''] None ''/a''
       = Inr (handleRouting 1 allowAll (initial [plainRoute ''/a'', plainRoute ''*''] None) ''/a'')"
proof -
  have h1: "\<exists>i. Suc i < length [plainRoute ''*'', plainRoute ''/a'']
              \<and> path ([plainRoute ''*'', plainRoute ''/a''] ! i) = ''*''"
    by (rule exI [of _ 0]) (simp add: plainRoute_def)
  have h2: "\<exists>i. Suc i < length [plainRoute ''*'', plainRoute ''*'']
              \<and> path ([plainRoute ''*'', plainRoute ''*''] ! i) = ''*''"
    by (rule exI [of _ 0]) (simp add: plainRoute_def)
  have h3: "\<not> (\<exists>i. Suc i < length [plainRoute ''/a'', plainRoute ''*'']
              \<and> path ([plainRoute ''/a'', plainRoute ''*''] ! i) = ''*'')"
    by (simp add: plainRoute_def less_Suc_eq)
  from constructor_wildcard_check [of 1 allowAll "[plainRoute ''*'', plainRoute ''/a'']" None "''/a''"]
    h1
  have c1: "Router 1 allowAll [plainRoute ''*'', plainRoute ''/a''] None ''/a''
      = Inl ConfigurationError"
    by simp
  from constructor_wildcard_check [of 1 allowAll "[plainRoute ''*'', plainRoute ''*'']" None "''/a''"]
    h2
  have c2: "Router 1 allowAll [plainRoute ''*'', plainRoute ''*''] None ''/a''
      = Inl ConfigurationError"
    by simp
  from constructor_wildcard_check [of 1 allowAll "[plainRoute ''/a'', plainRoute ''*'']" None "''/a''"]
    h3
  have c3: "Router 1 allowAll [plainRoute ''/a'', plainRoute ''*''] None ''/a''
       = Inr (handleRouting 1 allowAll (initial [plainRoute ''/a'', plainRoute ''*''] None) ''/a'')"
    by simp
  from c1 c2 c3 show ?thesis by simp
qed

theorem constructor_wildcard_check_counterexample:
  "map_sum id fst
     (Router 1 allowAll
        [Route ''/a'' None None None [] [plainRoute ''*'', plainRoute ''x''] [] [] [] [] None]
        None ''/a'') = Inr Completed
   \<and> map_sum id fst (Router2 1 allowAll [plainRoute ''*'', plainRoute ''/a''] None ''/a'')
       = Inr Completed
   \<and> map_sum id fst (Router2 1 allowAll [plainRoute ''*'', plainRoute ''*''] None ''/a'')
       = Inr Completed"
  by code_simp

end
